theory Spec2Isabelle
  imports Main "HOL-Library.Multiset"
begin

section \<open>Issue lifecycle and overdue sweep of the library backend\<close>

text \<open>
  The development embeds \<^verbatim>\<open>app/issues/service.py\<close> (\<^verbatim>\<open>IssueService\<close>),
  \<^verbatim>\<open>app/notifications/service.py\<close> (\<^verbatim>\<open>NotificationService\<close>) and
  \<^verbatim>\<open>app/scheduler/service.py\<close> (\<^verbatim>\<open>SchedulerService.check_overdue_books\<close>).

  Conventions of the embedding:
  \<^item> a table is the list of its rows, a row is a record of the columns the modelled
    functions read or write; a \<^verbatim>\<open>select ... where\<close> is a \<open>filter\<close>, an
    \<^verbatim>\<open>update ... where\<close> is a \<open>map\<close> that rewrites the matching rows;
  \<^item> every function runs on one database session: it takes the database and returns it,
    changed only by what the function commits;
  \<^item> a raised exception is the \<open>Inl\<close> of a sum;
  \<^item> a \<^verbatim>\<open>datetime\<close> is the number of microseconds since 0001-01-01 00:00:00, a
    \<^verbatim>\<open>timedelta\<close> a number of microseconds, and every read of the clock inside one
    call (\<^verbatim>\<open>datetime.now(timezone.utc)\<close>, \<^verbatim>\<open>datetime.utcnow()\<close>, \<^verbatim>\<open>datetime.now()\<close> and
    the \<^verbatim>\<open>now()\<close> of the database server) yields the same instant \<open>now\<close>, which is an
    argument of the call. The distinction between offset-aware and naive datetimes, which
    depends on the database driver, is not part of the model;
  \<^item> the database itself does not fail: a statement or a commit always succeeds.
\<close>

subsection \<open>Exceptions\<close>

datatype exn =
    HTTPException int string
  | MultipleResultsFound
  | TypeError
  | OverflowError
  | AttributeError
  | SMTPException

subsection \<open>Dates and durations\<close>

type_synonym datetime = int
type_synonym timedelta = int

definition hour :: timedelta where
  "hour = 3600000000"

definition day :: timedelta where
  "day = 86400000000"

text \<open>\<^verbatim>\<open>datetime.max\<close> is 9999-12-31 23:59:59.999999, the last microsecond of day number
  3652059.\<close>

definition datetime_max :: datetime where
  "datetime_max = 3652059 * day - 1"

text \<open>\<^verbatim>\<open>timedelta(days=n)\<close>: the constructor refuses more than 999999999 days.\<close>

definition timedelta_days :: "int \<Rightarrow> exn + timedelta" where
  "timedelta_days n =
     (if - 999999999 \<le> n \<and> n \<le> 999999999 then Inr (n * day) else Inl OverflowError)"

text \<open>\<^verbatim>\<open>datetime + timedelta\<close>: the sum must be a date of the years 1 to 9999.\<close>

definition datetime_add :: "datetime \<Rightarrow> timedelta \<Rightarrow> exn + datetime" where
  "datetime_add t d =
     (if 0 \<le> t + d \<and> t + d \<le> datetime_max then Inr (t + d) else Inl OverflowError)"

text \<open>\<^verbatim>\<open>timedelta.days\<close>: a timedelta is normalised with a non-negative remainder, so the
  attribute is the floor of the quotient.\<close>

definition days :: "timedelta \<Rightarrow> int" where
  "days d = d div day"

subsection \<open>Tables\<close>

record book =
  id_book :: int
  title :: string
  author :: string
  total_copies :: int
  available_copies :: int

record user =
  id_user :: int
  email :: string
  name :: string

record student =
  user_id :: int
  roll_no :: string

record issue =
  id_issue :: int
  book_id :: int
  student_id :: int
  issue_date :: datetime
  due_date :: datetime
  return_date :: "datetime option"
  is_returned :: bool
  overdue_notices_sent :: int
  last_notice_sent :: "datetime option"

text \<open>The database: the four tables and the sequence that numbers new issue rows.\<close>

record database =
  books :: "book list"
  users :: "user list"
  students :: "student list"
  issues :: "issue list"
  issues_id_seq :: int

text \<open>\<^verbatim>\<open>IssueCreate\<close>: the request body. \<^verbatim>\<open>days_to_return: Optional[int] = 14\<close> may
  be sent as an explicit null.\<close>

record issue_create =
  book_id_in :: int
  student_id_in :: int
  days_to_return :: "int option"

definition IssueCreate :: "int \<Rightarrow> int \<Rightarrow> issue_create" where
  "IssueCreate b s = \<lparr>book_id_in = b, student_id_in = s, days_to_return = Some 14\<rparr>"

text \<open>\<^verbatim>\<open>Result.scalar_one_or_none()\<close>: no row gives \<^verbatim>\<open>None\<close>, one row gives the row,
  more rows raise.\<close>

definition scalar_one_or_none :: "'a list \<Rightarrow> exn + 'a option" where
  "scalar_one_or_none rows =
     (case rows of
        [] \<Rightarrow> Inr None
      | [r] \<Rightarrow> Inr (Some r)
      | _ # _ # _ \<Rightarrow> Inl MultipleResultsFound)"

subsection \<open>\<^verbatim>\<open>IssueService\<close>\<close>

text \<open>\<^verbatim>\<open>issue_book\<close>: the four tests come first, each raising before anything is written;
  then the row is added, the copy count lowered and both committed. The returned issue is
  the row as the database stored it: \<open>id\<close> from the sequence, \<open>issue_date\<close> from the
  server default, the other columns from their defaults.\<close>

definition issue_book :: "database \<Rightarrow> issue_create \<Rightarrow> datetime \<Rightarrow> (exn + issue) \<times> database" where
  "issue_book db issue_data now =
     (case scalar_one_or_none (filter (\<lambda>b. id_book b = book_id_in issue_data) (books db)) of
        Inl e \<Rightarrow> (Inl e, db)
      | Inr None \<Rightarrow> (Inl (HTTPException 404 ''Book not found''), db)
      | Inr (Some book) \<Rightarrow>
          if available_copies book \<le> 0
          then (Inl (HTTPException 400 ''No available copies of this book''), db)
          else
            (case scalar_one_or_none
                    (filter (\<lambda>s. user_id s = student_id_in issue_data) (students db)) of
               Inl e \<Rightarrow> (Inl e, db)
             | Inr None \<Rightarrow> (Inl (HTTPException 404 ''Student not found''), db)
             | Inr (Some student) \<Rightarrow>
                 (case scalar_one_or_none
                         (filter (\<lambda>i. book_id i = book_id_in issue_data
                                      \<and> student_id i = student_id_in issue_data
                                      \<and> is_returned i = False) (issues db)) of
                    Inl e \<Rightarrow> (Inl e, db)
                  | Inr (Some existing_issue) \<Rightarrow>
                      (Inl (HTTPException 400 ''Student already has this book issued''), db)
                  | Inr None \<Rightarrow>
                      (case days_to_return issue_data of
                         None \<Rightarrow> (Inl TypeError, db)
                       | Some n \<Rightarrow>
                           (case timedelta_days n of
                              Inl e \<Rightarrow> (Inl e, db)
                            | Inr delta \<Rightarrow>
                                (case datetime_add now delta of
                                   Inl e \<Rightarrow> (Inl e, db)
                                 | Inr due \<Rightarrow>
                                     (let db_issue =
                                            \<lparr>id_issue = issues_id_seq db,
                                             book_id = book_id_in issue_data,
                                             student_id = student_id_in issue_data,
                                             issue_date = now,
                                             due_date = due,
                                             return_date = None,
                                             is_returned = False,
                                             overdue_notices_sent = 0,
                                             last_notice_sent = None\<rparr>
                                      in (Inr db_issue,
                                          db\<lparr>issues := issues db @ [db_issue],
                                             issues_id_seq := issues_id_seq db + 1,
                                             books :=
                                               map (\<lambda>b. if id_book b = book_id_in issue_data
                                                         then b\<lparr>available_copies :=
                                                                  available_copies b - 1\<rparr>
                                                         else b) (books db)\<rparr>))))))))"

definition return_book :: "database \<Rightarrow> int \<Rightarrow> datetime \<Rightarrow> (exn + issue) \<times> database" where
  "return_book db issue_id now =
     (case scalar_one_or_none (filter (\<lambda>i. id_issue i = issue_id) (issues db)) of
        Inl e \<Rightarrow> (Inl e, db)
      | Inr None \<Rightarrow> (Inl (HTTPException 404 ''Issue record not found''), db)
      | Inr (Some issue) \<Rightarrow>
          if is_returned issue
          then (Inl (HTTPException 400 ''Book already returned''), db)
          else
            (Inr (issue\<lparr>is_returned := True, return_date := Some now\<rparr>),
             db\<lparr>issues :=
                  map (\<lambda>i. if id_issue i = id_issue issue
                            then i\<lparr>is_returned := True, return_date := Some now\<rparr>
                            else i) (issues db),
                books :=
                  map (\<lambda>b. if id_book b = book_id issue
                            then b\<lparr>available_copies := available_copies b + 1\<rparr>
                            else b) (books db)\<rparr>))"

definition get_overdue_books :: "database \<Rightarrow> datetime \<Rightarrow> issue list" where
  "get_overdue_books db current_time =
     sort_key due_date
       (filter (\<lambda>i. is_returned i = False \<and> due_date i < current_time) (issues db))"

definition get_books_due_soon :: "database \<Rightarrow> int \<Rightarrow> datetime \<Rightarrow> exn + issue list" where
  "get_books_due_soon db n current_time =
     (case timedelta_days n of
        Inl e \<Rightarrow> Inl e
      | Inr delta \<Rightarrow>
          (case datetime_add current_time delta of
             Inl e \<Rightarrow> Inl e
           | Inr due_date_threshold \<Rightarrow>
               Inr (sort_key due_date
                      (filter (\<lambda>i. is_returned i = False
                                   \<and> due_date i > current_time
                                   \<and> due_date i \<le> due_date_threshold) (issues db)))))"

definition update_last_notice_sent :: "database \<Rightarrow> int \<Rightarrow> datetime \<Rightarrow> database" where
  "update_last_notice_sent db issue_id timestamp =
     db\<lparr>issues :=
          map (\<lambda>i. if id_issue i = issue_id then i\<lparr>last_notice_sent := Some timestamp\<rparr> else i)
            (issues db)\<rparr>"

subsection \<open>The two phases of \<^verbatim>\<open>issue_book\<close>\<close>

text \<open>
  \<^verbatim>\<open>issue_book\<close> is a coroutine: it gives up control at every \<^verbatim>\<open>await\<close>, and every call
  has a session and a transaction of its own. Its three \<^verbatim>\<open>select\<close> statements, with the
  tests on their results and the computation of the due date, read the database; nothing
  is written before the \<^verbatim>\<open>update\<close> and the \<^verbatim>\<open>commit\<close>. Between the last \<^verbatim>\<open>select\<close> of
  one call and its \<^verbatim>\<open>update\<close> another call can run its own \<^verbatim>\<open>select\<close> statements, and it
  reads what is committed then. The \<^verbatim>\<open>update\<close> is relative
  (\<^verbatim>\<open>available_copies = Book.available_copies - 1\<close>, without a condition on the count), so
  it applies to the row as it is when the statement runs.
\<close>

text \<open>The first phase: what the call reads and tests, and the due date it computes.\<close>

definition issue_book_tests :: "database \<Rightarrow> issue_create \<Rightarrow> datetime \<Rightarrow> exn + datetime" where
  "issue_book_tests db issue_data now =
     (case scalar_one_or_none (filter (\<lambda>b. id_book b = book_id_in issue_data) (books db)) of
        Inl e \<Rightarrow> Inl e
      | Inr None \<Rightarrow> Inl (HTTPException 404 ''Book not found'')
      | Inr (Some book) \<Rightarrow>
          if available_copies book \<le> 0
          then Inl (HTTPException 400 ''No available copies of this book'')
          else
            (case scalar_one_or_none
                    (filter (\<lambda>s. user_id s = student_id_in issue_data) (students db)) of
               Inl e \<Rightarrow> Inl e
             | Inr None \<Rightarrow> Inl (HTTPException 404 ''Student not found'')
             | Inr (Some student) \<Rightarrow>
                 (case scalar_one_or_none
                         (filter (\<lambda>i. book_id i = book_id_in issue_data
                                      \<and> student_id i = student_id_in issue_data
                                      \<and> is_returned i = False) (issues db)) of
                    Inl e \<Rightarrow> Inl e
                  | Inr (Some existing_issue) \<Rightarrow>
                      Inl (HTTPException 400 ''Student already has this book issued'')
                  | Inr None \<Rightarrow>
                      (case days_to_return issue_data of
                         None \<Rightarrow> Inl TypeError
                       | Some n \<Rightarrow>
                           (case timedelta_days n of
                              Inl e \<Rightarrow> Inl e
                            | Inr delta \<Rightarrow> datetime_add now delta)))))"

text \<open>The second phase: the row is added, the copy count lowered, both committed, and the
  stored row returned.\<close>

definition issue_book_writes ::
  "database \<Rightarrow> issue_create \<Rightarrow> datetime \<Rightarrow> datetime \<Rightarrow> issue \<times> database" where
  "issue_book_writes db issue_data now due =
     (let db_issue =
            \<lparr>id_issue = issues_id_seq db,
             book_id = book_id_in issue_data,
             student_id = student_id_in issue_data,
             issue_date = now,
             due_date = due,
             return_date = None,
             is_returned = False,
             overdue_notices_sent = 0,
             last_notice_sent = None\<rparr>
      in (db_issue,
          db\<lparr>issues := issues db @ [db_issue],
             issues_id_seq := issues_id_seq db + 1,
             books :=
               map (\<lambda>b. if id_book b = book_id_in issue_data
                         then b\<lparr>available_copies := available_copies b - 1\<rparr>
                         else b) (books db)\<rparr>))"

subsection \<open>\<^verbatim>\<open>NotificationService\<close>\<close>

text \<open>The two message templates of \<^verbatim>\<open>send_overdue_notification\<close>, with the values they
  interpolate: the overdue notice (student name, title, author, days overdue, due date) and
  the reminder (student name, title, days remaining, due date).\<close>

datatype body =
    Overdue_notice string string string int datetime
  | Reminder string string int datetime

record EmailSchema =
  email_list :: "string list"
  subject :: string
  body :: body

text \<open>The relationships \<^verbatim>\<open>issue.book\<close>, \<^verbatim>\<open>issue.student\<close> and \<^verbatim>\<open>student.user\<close>: the
  referenced row, or \<^verbatim>\<open>None\<close>.\<close>

definition issue_book_rel :: "database \<Rightarrow> issue \<Rightarrow> book option" where
  "issue_book_rel db i = find (\<lambda>b. id_book b = book_id i) (books db)"

definition issue_student_rel :: "database \<Rightarrow> issue \<Rightarrow> student option" where
  "issue_student_rel db i = find (\<lambda>s. user_id s = student_id i) (students db)"

definition student_user_rel :: "database \<Rightarrow> student \<Rightarrow> user option" where
  "student_user_rel db s = find (\<lambda>u. id_user u = user_id s) (users db)"

text \<open>The value \<^verbatim>\<open>email_data\<close> that \<^verbatim>\<open>send_overdue_notification\<close> builds for an issue.
  Reading an attribute of a relationship that is \<^verbatim>\<open>None\<close> raises
  \<^verbatim>\<open>AttributeError\<close>.\<close>

definition notification_email :: "database \<Rightarrow> issue \<Rightarrow> int \<Rightarrow> datetime \<Rightarrow> exn + EmailSchema" where
  "notification_email db i days_overdue now =
     (case issue_book_rel db i of
        None \<Rightarrow> Inl AttributeError
      | Some bk \<Rightarrow>
          (case issue_student_rel db i of
             None \<Rightarrow> Inl AttributeError
           | Some st \<Rightarrow>
               (case student_user_rel db st of
                  None \<Rightarrow> Inl AttributeError
                | Some u \<Rightarrow>
                    Inr \<lparr>email_list = [email u],
                         subject = ''Book Return Reminder: '' @ title bk,
                         body =
                           (if days_overdue > 0
                            then Overdue_notice (name u) (title bk) (author bk) days_overdue
                                   (due_date i)
                            else Reminder (name u) (title bk) (days (due_date i - now))
                                   (due_date i))\<rparr>)))"

text \<open>\<^verbatim>\<open>send_overdue_notification(background_tasks, issue, days_overdue=0)\<close>: builds the
  message and appends the task that sends it.\<close>

definition send_overdue_notification ::
  "database \<Rightarrow> EmailSchema list \<Rightarrow> issue \<Rightarrow> int \<Rightarrow> datetime \<Rightarrow> exn + EmailSchema list" where
  "send_overdue_notification db background_tasks i days_overdue now =
     (case notification_email db i days_overdue now of
        Inl e \<Rightarrow> Inl e
      | Inr m \<Rightarrow> Inr (background_tasks @ [m]))"

datatype log_record =
    Email_sent "string list"
  | Error_sending_email exn
  | Error_in_overdue_book_check exn

text \<open>\<^verbatim>\<open>send_email\<close>: the SMTP exchange is outside the program; \<open>smtp\<close> tells for each
  message whether it raises. The function catches the exception and logs it.\<close>

definition send_email :: "(EmailSchema \<Rightarrow> exn option) \<Rightarrow> EmailSchema \<Rightarrow> log_record" where
  "send_email smtp email_data =
     (case smtp email_data of
        None \<Rightarrow> Email_sent (email_list email_data)
      | Some e \<Rightarrow> Error_sending_email e)"

subsection \<open>\<^verbatim>\<open>SchedulerService.check_overdue_books\<close>\<close>

text \<open>The loop over the overdue issues.\<close>

fun overdue_loop ::
  "database \<Rightarrow> datetime \<Rightarrow> issue list \<Rightarrow> EmailSchema list \<Rightarrow> exn + EmailSchema list" where
  "overdue_loop db now [] background_tasks = Inr background_tasks"
| "overdue_loop db now (i # rest) background_tasks =
     (case send_overdue_notification db background_tasks i (days (now - due_date i)) now of
        Inl e \<Rightarrow> Inl e
      | Inr background_tasks' \<Rightarrow> overdue_loop db now rest background_tasks')"

text \<open>The test of the loop over the due-soon issues.\<close>

definition notice_wanted :: "datetime \<Rightarrow> issue \<Rightarrow> bool" where
  "notice_wanted now i =
     (case last_notice_sent i of None \<Rightarrow> True | Some t \<Rightarrow> now - t > 1 * day)"

text \<open>The loop over the due-soon issues: each pass that sends also commits the new
  \<^verbatim>\<open>last_notice_sent\<close>, so an exception leaves the earlier commits in place.\<close>

fun due_soon_loop ::
  "database \<Rightarrow> datetime \<Rightarrow> issue list \<Rightarrow> EmailSchema list
     \<Rightarrow> exn option \<times> EmailSchema list \<times> database" where
  "due_soon_loop db now [] background_tasks = (None, background_tasks, db)"
| "due_soon_loop db now (i # rest) background_tasks =
     (if notice_wanted now i
      then
        (case send_overdue_notification db background_tasks i 0 now of
           Inl e \<Rightarrow> (Some e, background_tasks, db)
         | Inr background_tasks' \<Rightarrow>
             due_soon_loop
               (db\<lparr>issues :=
                    map (\<lambda>j. if id_issue j = id_issue i
                              then j\<lparr>last_notice_sent := Some now\<rparr> else j) (issues db)\<rparr>)
               now rest background_tasks')
      else due_soon_loop db now rest background_tasks)"

text \<open>What one run leaves behind: the database, the messages handed to \<^verbatim>\<open>send_email\<close>,
  the log, and the exception that leaves the call, if one does.\<close>

record sweep =
  db_after :: database
  attempted :: "EmailSchema list"
  log :: "log_record list"
  raised :: "exn option"

text \<open>The exceptions that are instances of \<^verbatim>\<open>Exception\<close>: every one that the modelled
  code raises.\<close>

definition is_Exception :: "exn \<Rightarrow> bool" where
  "is_Exception e =
     (case e of
        HTTPException status_code detail \<Rightarrow> True
      | MultipleResultsFound \<Rightarrow> True
      | TypeError \<Rightarrow> True
      | OverflowError \<Rightarrow> True
      | AttributeError \<Rightarrow> True
      | SMTPException \<Rightarrow> True)"

text \<open>The handler around the run, \<^verbatim>\<open>except Exception as e: logger.error(...)\<close>: an
  \<^verbatim>\<open>Exception\<close> ends the run and is logged; anything else would leave the call. The
  messages queued so far are dropped, the commits made so far stay.\<close>

definition except_Exception :: "database \<Rightarrow> exn \<Rightarrow> sweep" where
  "except_Exception db e =
     (if is_Exception e
      then \<lparr>db_after = db, attempted = [], log = [Error_in_overdue_book_check e], raised = None\<rparr>
      else \<lparr>db_after = db, attempted = [], log = [], raised = Some e\<rparr>)"

definition check_overdue_books ::
  "(EmailSchema \<Rightarrow> exn option) \<Rightarrow> database \<Rightarrow> datetime \<Rightarrow> sweep" where
  "check_overdue_books smtp db now =
     (let overdue_issues = get_overdue_books db now in
      case get_books_due_soon db 5 now of
        Inl e \<Rightarrow> except_Exception db e
      | Inr due_soon \<Rightarrow>
          (case overdue_loop db now overdue_issues [] of
             Inl e \<Rightarrow> except_Exception db e
           | Inr background_tasks \<Rightarrow>
               (case due_soon_loop db now due_soon background_tasks of
                  (Some e, background_tasks', db') \<Rightarrow> except_Exception db' e
                | (None, background_tasks', db') \<Rightarrow>
                    \<lparr>db_after = db', attempted = background_tasks',
                     log = map (send_email smtp) background_tasks', raised = None\<rparr>)))"

subsection \<open>Sequences of operations\<close>

datatype operation =
    Issue_book issue_create datetime
  | Return_book int datetime
  | Check_overdue_books "EmailSchema \<Rightarrow> exn option" datetime
  | Update_last_notice_sent int datetime

fun exec :: "database \<Rightarrow> operation \<Rightarrow> database" where
  "exec db (Issue_book issue_data now) = snd (issue_book db issue_data now)"
| "exec db (Return_book issue_id now) = snd (return_book db issue_id now)"
| "exec db (Check_overdue_books smtp now) = db_after (check_overdue_books smtp db now)"
| "exec db (Update_last_notice_sent issue_id timestamp) =
     update_last_notice_sent db issue_id timestamp"

definition run :: "database \<Rightarrow> operation list \<Rightarrow> database" where
  "run db ops = foldl exec db ops"

subsection \<open>Consistency of a database\<close>

text \<open>The primary keys of the schema: \<^verbatim>\<open>books.id\<close>, \<^verbatim>\<open>users.id\<close>,
  \<^verbatim>\<open>students.user_id\<close> and \<^verbatim>\<open>issues.id\<close>.\<close>

definition primary_keys :: "database \<Rightarrow> bool" where
  "primary_keys db \<longleftrightarrow>
     distinct (map id_book (books db)) \<and> distinct (map id_user (users db))
     \<and> distinct (map user_id (students db)) \<and> distinct (map id_issue (issues db))"

text \<open>The foreign keys of the schema: every issue names a book and a student, every
  student a user.\<close>

definition foreign_keys :: "database \<Rightarrow> bool" where
  "foreign_keys db \<longleftrightarrow>
     (\<forall>i\<in>set (issues db).
        (\<exists>b\<in>set (books db). id_book b = book_id i)
        \<and> (\<exists>s\<in>set (students db). user_id s = student_id i))
     \<and> (\<forall>s\<in>set (students db). \<exists>u\<in>set (users db). id_user u = user_id s)"

text \<open>The number of unreturned issues of a book.\<close>

definition unreturned :: "database \<Rightarrow> int \<Rightarrow> nat" where
  "unreturned db b = length (filter (\<lambda>i. book_id i = b \<and> \<not> is_returned i) (issues db))"

text \<open>The copy counts agree with the ledger.\<close>

definition copies_consistent :: "database \<Rightarrow> bool" where
  "copies_consistent db \<longleftrightarrow>
     (\<forall>b\<in>set (books db).
        available_copies b = total_copies b - int (unreturned db (id_book b))
        \<and> 0 \<le> available_copies b \<and> available_copies b \<le> total_copies b)"

text \<open>No two unreturned issues have the same book and student.\<close>

definition one_active_issue :: "database \<Rightarrow> bool" where
  "one_active_issue db \<longleftrightarrow>
     distinct (map (\<lambda>i. (book_id i, student_id i))
                 (filter (\<lambda>i. \<not> is_returned i) (issues db)))"

definition consistent :: "database \<Rightarrow> bool" where
  "consistent db \<longleftrightarrow> copies_consistent db \<and> one_active_issue db"

text \<open>The database after \<^verbatim>\<open>last_notice_sent\<close> of the issues numbered in \<open>S\<close> was set.\<close>

definition noticed :: "int set \<Rightarrow> datetime \<Rightarrow> database \<Rightarrow> database" where
  "noticed S now db =
     db\<lparr>issues :=
          map (\<lambda>j. if id_issue j \<in> S then j\<lparr>last_notice_sent := Some now\<rparr> else j)
            (issues db)\<rparr>"

subsection \<open>A small library\<close>

text \<open>Two books, the first with a single copy, two students, no issue yet; \<open>noon\<close> is
  2026-11-04 12:00:00.\<close>

definition noon :: datetime where
  "noon = 63929390400000000"

definition library :: database where
  "library =
     \<lparr>books = [\<lparr>id_book = 1, title = ''Dune'', author = ''Herbert'',
                 total_copies = 1, available_copies = 1\<rparr>,
               \<lparr>id_book = 2, title = ''Emma'', author = ''Austen'',
                 total_copies = 2, available_copies = 2\<rparr>],
      users = [\<lparr>id_user = 10, email = ''a@example.org'', name = ''A''\<rparr>,
               \<lparr>id_user = 11, email = ''b@example.org'', name = ''B''\<rparr>],
      students = [\<lparr>user_id = 10, roll_no = ''R10''\<rparr>, \<lparr>user_id = 11, roll_no = ''R11''\<rparr>],
      issues = [],
      issues_id_seq = 1\<rparr>"

text \<open>The same library after its first book was issued to student 10 for 14 days.\<close>

definition lent :: database where
  "lent =
     \<lparr>books = [\<lparr>id_book = 1, title = ''Dune'', author = ''Herbert'',
                 total_copies = 1, available_copies = 0\<rparr>,
               \<lparr>id_book = 2, title = ''Emma'', author = ''Austen'',
                 total_copies = 2, available_copies = 2\<rparr>],
      users = [\<lparr>id_user = 10, email = ''a@example.org'', name = ''A''\<rparr>,
               \<lparr>id_user = 11, email = ''b@example.org'', name = ''B''\<rparr>],
      students = [\<lparr>user_id = 10, roll_no = ''R10''\<rparr>, \<lparr>user_id = 11, roll_no = ''R11''\<rparr>],
      issues = [\<lparr>id_issue = 1, book_id = 1, student_id = 10, issue_date = noon,
                  due_date = noon + 14 * day, return_date = None, is_returned = False,
                  overdue_notices_sent = 0, last_notice_sent = None\<rparr>],
      issues_id_seq = 2\<rparr>"

text \<open>An unreturned issue with the given id, book, student, due date and last notice.\<close>

definition loan :: "int \<Rightarrow> int \<Rightarrow> int \<Rightarrow> datetime \<Rightarrow> datetime option \<Rightarrow> issue" where
  "loan k b s due notice =
     \<lparr>id_issue = k, book_id = b, student_id = s, issue_date = due - 14 * day, due_date = due,
      return_date = None, is_returned = False, overdue_notices_sent = 0,
      last_notice_sent = notice\<rparr>"

text \<open>Issues due in seven days, in three days, since yesterday, and one due in two days
  that is already returned.\<close>

definition desk :: database where
  "desk =
     library\<lparr>issues :=
       [loan 1 1 10 (noon + 7 * day) None,
        loan 2 2 11 (noon + 3 * day) None,
        loan 3 2 10 (noon - 1 * day) None,
        (loan 4 1 11 (noon + 2 * day) None)\<lparr>is_returned := True, return_date := Some noon\<rparr>],
       issues_id_seq := 5\<rparr>"

text \<open>Two issues that are due soon: the notice of the first was sent two hours ago, the
  notice of the second twenty-six hours ago.\<close>

definition reminders :: database where
  "reminders =
     library\<lparr>issues :=
       [loan 1 1 10 (noon + 2 * day) (Some (noon - 2 * hour)),
        loan 2 2 11 (noon + 3 * day) (Some (noon - 26 * hour))],
       issues_id_seq := 3\<rparr>"

text \<open>An issue that is overdue since twelve hours.\<close>

definition late :: database where
  "late = library\<lparr>issues := [loan 1 1 10 (noon - 12 * hour) None], issues_id_seq := 2\<rparr>"

text \<open>An SMTP server that accepts every message.\<close>

definition accepting :: "EmailSchema \<Rightarrow> exn option" where
  "accepting m = None"

text \<open>The message is a reminder.\<close>

definition is_reminder :: "EmailSchema \<Rightarrow> bool" where
  "is_reminder m = (case body m of Reminder n t d due \<Rightarrow> True | Overdue_notice n t a d due \<Rightarrow> False)"

text \<open>An SMTP server that refuses the messages to one address.\<close>

definition refusing :: "string \<Rightarrow> EmailSchema \<Rightarrow> exn option" where
  "refusing a m = (if a \<in> set (email_list m) then Some SMTPException else None)"

section \<open>Verification\<close>

subsection \<open>Queries and the two ledger operations\<close>

lemma scalar_one_or_none_Some [simp]:
  "scalar_one_or_none rows = Inr (Some r) \<longleftrightarrow> rows = [r]"
  by (auto simp: scalar_one_or_none_def split: list.splits)

lemma scalar_one_or_none_None [simp]:
  "scalar_one_or_none rows = Inr None \<longleftrightarrow> rows = []"
  by (auto simp: scalar_one_or_none_def split: list.splits)

lemma scalar_one_or_none_Inl:
  "scalar_one_or_none rows = Inl e \<longleftrightarrow> e = MultipleResultsFound \<and> 2 \<le> length rows"
  by (auto simp: scalar_one_or_none_def split: list.splits)

lemma issue_book_raises: "issue_book db d now = (Inl e, db') \<Longrightarrow> db' = db"
  by (auto simp: issue_book_def Let_def split: sum.splits option.splits if_splits)

lemma issue_book_returns:
  assumes "issue_book db d now = (Inr iss, db')"
  shows "\<exists>bk st n.
      filter (\<lambda>b. id_book b = book_id_in d) (books db) = [bk] \<and> 0 < available_copies bk
    \<and> filter (\<lambda>s. user_id s = student_id_in d) (students db) = [st]
    \<and> filter (\<lambda>i. book_id i = book_id_in d \<and> student_id i = student_id_in d
                   \<and> is_returned i = False) (issues db) = []
    \<and> days_to_return d = Some n \<and> timedelta_days n = Inr (n * day)
    \<and> datetime_add now (n * day) = Inr (now + n * day)
    \<and> iss = \<lparr>id_issue = issues_id_seq db, book_id = book_id_in d,
              student_id = student_id_in d, issue_date = now, due_date = now + n * day,
              return_date = None, is_returned = False, overdue_notices_sent = 0,
              last_notice_sent = None\<rparr>
    \<and> db' = db\<lparr>issues := issues db @ [iss], issues_id_seq := issues_id_seq db + 1,
                books := map (\<lambda>b. if id_book b = book_id_in d
                                    then b\<lparr>available_copies := available_copies b - 1\<rparr>
                                    else b) (books db)\<rparr>"
  using assms
  by (auto simp: issue_book_def Let_def timedelta_days_def datetime_add_def
           split: sum.splits option.splits if_splits)

lemma return_book_raises: "return_book db iid now = (Inl e, db') \<Longrightarrow> db' = db"
  by (auto simp: return_book_def split: sum.splits option.splits if_splits)

lemma filter_single_holds: "filter P xs = [x] \<Longrightarrow> P x \<and> x \<in> set xs"
proof -
  assume "filter P xs = [x]"
  then have "x \<in> set (filter P xs)" by simp
  then show ?thesis by simp
qed

lemma filter_single_unique: "filter P xs = [x] \<Longrightarrow> y \<in> set xs \<Longrightarrow> P y \<Longrightarrow> y = x"
proof -
  assume single: "filter P xs = [x]" and y: "y \<in> set xs" "P y"
  from y have "y \<in> set (filter P xs)" by simp
  then have "y \<in> set [x]" by (simp only: single)
  then show "y = x" by simp
qed

lemma return_book_returns:
  assumes "return_book db iid now = (Inr iss, db')"
  shows "\<exists>i. filter (\<lambda>i. id_issue i = iid) (issues db) = [i] \<and> \<not> is_returned i
    \<and> iss = i\<lparr>is_returned := True, return_date := Some now\<rparr>
    \<and> db' = db\<lparr>issues := map (\<lambda>j. if id_issue j = iid
                                     then j\<lparr>is_returned := True, return_date := Some now\<rparr>
                                     else j) (issues db),
                books := map (\<lambda>b. if id_book b = book_id i
                                    then b\<lparr>available_copies := available_copies b + 1\<rparr>
                                    else b) (books db)\<rparr>"
proof -
  from assms obtain i where
    i: "filter (\<lambda>i. id_issue i = iid) (issues db) = [i]" and nr: "\<not> is_returned i"
    and iss: "iss = i\<lparr>is_returned := True, return_date := Some now\<rparr>"
    and db': "db' = db\<lparr>issues := map (\<lambda>j. if id_issue j = id_issue i
                                     then j\<lparr>is_returned := True, return_date := Some now\<rparr>
                                     else j) (issues db),
                books := map (\<lambda>b. if id_book b = book_id i
                                    then b\<lparr>available_copies := available_copies b + 1\<rparr>
                                    else b) (books db)\<rparr>"
    by (auto simp: return_book_def split: sum.splits option.splits if_splits)
  from i have "id_issue i = iid" using filter_single_holds by fast
  with i nr iss db' show ?thesis by auto
qed

lemma length_filter_split:
  "length (filter P xs) =
     length (filter (\<lambda>x. P x \<and> R x) xs) + length (filter (\<lambda>x. P x \<and> \<not> R x) xs)"
  by (induction xs) auto

lemma unreturned_append:
  "unreturned (db\<lparr>issues := issues db @ [i]\<rparr>) b =
     unreturned db b + (if book_id i = b \<and> \<not> is_returned i then 1 else 0)"
  by (simp add: unreturned_def)

lemma issue_book_copies_consistent:
  assumes "copies_consistent db" and "issue_book db d now = (Inr iss, db')"
  shows "copies_consistent db'"
proof -
  from issue_book_returns [OF assms(2)] obtain bk where
    bk: "filter (\<lambda>b. id_book b = book_id_in d) (books db) = [bk]" and pos: "0 < available_copies bk"
    and iss: "book_id iss = book_id_in d" "\<not> is_returned iss"
    and db': "db' = db\<lparr>issues := issues db @ [iss], issues_id_seq := issues_id_seq db + 1,
                books := map (\<lambda>b. if id_book b = book_id_in d
                                    then b\<lparr>available_copies := available_copies b - 1\<rparr>
                                    else b) (books db)\<rparr>"
    by auto
  have un: "unreturned db' b = unreturned db b + (if book_id_in d = b then 1 else 0)" for b
    using iss by (simp add: db' unreturned_def)
  show ?thesis
    unfolding copies_consistent_def
  proof
    fix b' assume "b' \<in> set (books db')"
    then obtain b where b: "b \<in> set (books db)"
      and b': "b' = (if id_book b = book_id_in d
                     then b\<lparr>available_copies := available_copies b - 1\<rparr> else b)"
      by (auto simp: db')
    from assms(1) b have inv: "available_copies b = total_copies b - int (unreturned db (id_book b))"
      "0 \<le> available_copies b" "available_copies b \<le> total_copies b"
      by (auto simp: copies_consistent_def)
    show "available_copies b' = total_copies b' - int (unreturned db' (id_book b'))
        \<and> 0 \<le> available_copies b' \<and> available_copies b' \<le> total_copies b'"
    proof (cases "id_book b = book_id_in d")
      case True
      then have "b = bk" using filter_single_unique [OF bk b] by simp
      with pos True inv show ?thesis by (simp add: b' un)
    next
      case False
      with inv show ?thesis by (simp add: b' un)
    qed
  qed
qed

lemma issue_book_one_active_issue:
  assumes "one_active_issue db" and "issue_book db d now = (Inr iss, db')"
  shows "one_active_issue db'"
proof -
  from issue_book_returns [OF assms(2)] have
    none: "filter (\<lambda>i. book_id i = book_id_in d \<and> student_id i = student_id_in d
                   \<and> is_returned i = False) (issues db) = []"
    and iss: "book_id iss = book_id_in d" "student_id iss = student_id_in d" "\<not> is_returned iss"
    and db': "issues db' = issues db @ [iss]"
    by auto
  from none have "(book_id_in d, student_id_in d)
      \<notin> set (map (\<lambda>i. (book_id i, student_id i)) (filter (\<lambda>i. \<not> is_returned i) (issues db)))"
    by (auto simp: filter_empty_conv)
  with assms(1) iss show ?thesis
    by (simp add: one_active_issue_def db')
qed

lemma filter_mark_returned:
  "filter (\<lambda>j. Q j \<and> \<not> is_returned j)
      (map (\<lambda>j. if id_issue j = iid then j\<lparr>is_returned := True, return_date := r\<rparr> else j) xs)
   = filter (\<lambda>j. id_issue j \<noteq> iid) (filter (\<lambda>j. Q j \<and> \<not> is_returned j) xs)"
  by (induction xs) auto

lemma unreturned_mark_returned:
  assumes single: "filter (\<lambda>j. id_issue j = iid) xs = [i]" and nr: "\<not> is_returned i"
  shows "length (filter (\<lambda>j. book_id j = b \<and> \<not> is_returned j) xs) =
         length (filter (\<lambda>j. book_id j = b \<and> \<not> is_returned j)
                   (map (\<lambda>j. if id_issue j = iid
                             then j\<lparr>is_returned := True, return_date := r\<rparr> else j) xs))
         + (if book_id i = b then 1 else 0)"
proof -
  let ?Q = "\<lambda>j. book_id j = b \<and> \<not> is_returned j"
  have "length (filter ?Q xs) =
          length (filter (\<lambda>j. ?Q j \<and> id_issue j \<noteq> iid) xs)
        + length (filter (\<lambda>j. ?Q j \<and> \<not> id_issue j \<noteq> iid) xs)"
    by (rule length_filter_split)
  moreover have "filter (\<lambda>j. ?Q j \<and> \<not> id_issue j \<noteq> iid) xs
        = filter ?Q (filter (\<lambda>j. id_issue j = iid) xs)"
    by (simp add: conj_commute)
  moreover have "filter (\<lambda>j. ?Q j \<and> id_issue j \<noteq> iid) xs
        = filter (\<lambda>j. id_issue j \<noteq> iid) (filter ?Q xs)"
    by simp
  ultimately show ?thesis
    using nr by (simp add: single filter_mark_returned [where Q = "\<lambda>j. book_id j = b"])
qed

lemma return_book_copies_consistent:
  assumes "copies_consistent db" and "return_book db iid now = (Inr iss, db')"
  shows "copies_consistent db'"
proof -
  from return_book_returns [OF assms(2)] obtain i where
    i: "filter (\<lambda>i. id_issue i = iid) (issues db) = [i]" and nr: "\<not> is_returned i"
    and db': "db' = db\<lparr>issues := map (\<lambda>j. if id_issue j = iid
                                     then j\<lparr>is_returned := True, return_date := Some now\<rparr>
                                     else j) (issues db),
                books := map (\<lambda>b. if id_book b = book_id i
                                    then b\<lparr>available_copies := available_copies b + 1\<rparr>
                                    else b) (books db)\<rparr>"
    by auto
  have un: "unreturned db b = unreturned db' b + (if book_id i = b then 1 else 0)" for b
    using unreturned_mark_returned [OF i nr] by (simp add: db' unreturned_def)
  show ?thesis
    unfolding copies_consistent_def
  proof
    fix b' assume "b' \<in> set (books db')"
    then obtain b where b: "b \<in> set (books db)"
      and b': "b' = (if id_book b = book_id i
                     then b\<lparr>available_copies := available_copies b + 1\<rparr> else b)"
      by (auto simp: db')
    from assms(1) b have inv: "available_copies b = total_copies b - int (unreturned db (id_book b))"
      "0 \<le> available_copies b" "available_copies b \<le> total_copies b"
      by (auto simp: copies_consistent_def)
    show "available_copies b' = total_copies b' - int (unreturned db' (id_book b'))
        \<and> 0 \<le> available_copies b' \<and> available_copies b' \<le> total_copies b'"
      using inv un [of "id_book b"] by (cases "book_id i = id_book b") (simp_all add: b')
  qed
qed

lemma return_book_one_active_issue:
  assumes "one_active_issue db" and "return_book db iid now = (Inr iss, db')"
  shows "one_active_issue db'"
proof -
  from return_book_returns [OF assms(2)] have
    "issues db' = map (\<lambda>j. if id_issue j = iid
                             then j\<lparr>is_returned := True, return_date := Some now\<rparr>
                             else j) (issues db)"
    by auto
  then have "filter (\<lambda>j. \<not> is_returned j) (issues db')
      = filter (\<lambda>j. id_issue j \<noteq> iid) (filter (\<lambda>j. \<not> is_returned j) (issues db))"
    using filter_mark_returned [where Q = "\<lambda>j. True"] by simp
  with assms(1) show ?thesis
    unfolding one_active_issue_def by (simp only: distinct_map_filter)
qed

lemma ledger_filter_map:
  assumes "\<And>j. book_id (g j) = book_id j" "\<And>j. student_id (g j) = student_id j"
    "\<And>j. is_returned (g j) = is_returned j"
  shows "filter (\<lambda>i. P (book_id i) (student_id i) (is_returned i)) (map g xs)
       = map g (filter (\<lambda>i. P (book_id i) (student_id i) (is_returned i)) xs)"
  using assms by (induction xs) auto

lemma consistent_ledger_map:
  assumes g: "\<And>j. book_id (g j) = book_id j" "\<And>j. student_id (g j) = student_id j"
    "\<And>j. is_returned (g j) = is_returned j"
    and db': "books db' = books db" "issues db' = map g (issues db)"
  shows "consistent db' = consistent db"
proof -
  have "unreturned db' b = unreturned db b" for b
    using ledger_filter_map [OF g, where P = "\<lambda>x y r. x = b \<and> \<not> r"]
    by (simp add: unreturned_def db')
  then have "copies_consistent db' = copies_consistent db"
    by (simp add: copies_consistent_def db'(1))
  moreover have "map (\<lambda>i. (book_id i, student_id i)) (filter (\<lambda>i. \<not> is_returned i) (issues db'))
      = map (\<lambda>i. (book_id i, student_id i)) (filter (\<lambda>i. \<not> is_returned i) (issues db))"
    using ledger_filter_map [OF g, where P = "\<lambda>x y r. \<not> r"] g
    by (simp add: db' comp_def)
  then have "one_active_issue db' = one_active_issue db"
    by (simp add: one_active_issue_def)
  ultimately show ?thesis
    by (simp add: consistent_def)
qed

lemma noticed_empty [simp]: "noticed {} now db = db"
  by (simp add: noticed_def)

lemma noticed_noticed [simp]: "noticed S now (noticed T now db) = noticed (S \<union> T) now db"
  by (auto simp: noticed_def)

lemma noticed_tables [simp]:
  "books (noticed S now db) = books db" "users (noticed S now db) = users db"
  "students (noticed S now db) = students db"
  by (simp_all add: noticed_def)

lemma rels_noticed [simp]:
  "issue_book_rel (noticed S t db) = issue_book_rel db"
  "issue_student_rel (noticed S t db) = issue_student_rel db"
  "student_user_rel (noticed S t db) = student_user_rel db"
  by (simp_all add: fun_eq_iff issue_book_rel_def issue_student_rel_def student_user_rel_def)

lemma notification_email_noticed [simp]:
  "notification_email (noticed S t db) = notification_email db"
  by (simp add: fun_eq_iff notification_email_def cong: option.case_cong)

lemma noticed_single:
  "db\<lparr>issues := map (\<lambda>j. if id_issue j = k then j\<lparr>last_notice_sent := Some now\<rparr> else j)
                   (issues db)\<rparr> = noticed {k} now db"
  by (simp add: noticed_def)

lemma overdue_loop_Inr:
  "map (\<lambda>i. notification_email db i (days (now - due_date i)) now) xs = map Inr ms
     \<Longrightarrow> overdue_loop db now xs tasks = Inr (tasks @ ms)"
  by (induction xs arbitrary: tasks ms) (auto simp: send_overdue_notification_def)

lemma overdue_loop_Inl:
  "i \<in> set xs \<Longrightarrow> notification_email db i (days (now - due_date i)) now = Inl e
     \<Longrightarrow> \<exists>e'. overdue_loop db now xs tasks = Inl e'"
  by (induction xs arbitrary: tasks) (auto simp: send_overdue_notification_def split: sum.splits)

lemma due_soon_loop_None:
  "map (\<lambda>i. notification_email db i 0 now) (filter (notice_wanted now) xs) = map Inr ms
     \<Longrightarrow> due_soon_loop db now xs tasks =
         (None, tasks @ ms, noticed (id_issue ` set (filter (notice_wanted now) xs)) now db)"
proof (induction xs arbitrary: db tasks ms)
  case Nil
  then show ?case by simp
next
  case (Cons i xs)
  show ?case
  proof (cases "notice_wanted now i")
    case True
    with Cons.prems obtain m ms' where ms: "ms = m # ms'" "notification_email db i 0 now = Inr m"
      "map (\<lambda>i. notification_email db i 0 now) (filter (notice_wanted now) xs) = map Inr ms'"
      by auto
    from ms(3) have "map (\<lambda>j. notification_email (noticed {id_issue i} now db) j 0 now)
         (filter (notice_wanted now) xs) = map Inr ms'"
      by simp
    from Cons.IH [OF this] True ms(1,2) show ?thesis
      by (simp add: send_overdue_notification_def noticed_single Un_commute)
  next
    case False
    with Cons show ?thesis by simp
  qed
qed

lemma due_soon_loop_Some:
  "i \<in> set xs \<Longrightarrow> notice_wanted now i \<Longrightarrow> notification_email db i 0 now = Inl e
     \<Longrightarrow> \<exists>e' tasks' db'. due_soon_loop db now xs tasks = (Some e', tasks', db')"
proof (induction xs arbitrary: db tasks)
  case Nil
  then show ?case by simp
next
  case (Cons j xs)
  show ?case
  proof (cases "i = j")
    case True
    with Cons.prems show ?thesis by (simp add: send_overdue_notification_def)
  next
    case False
    with Cons.prems have i: "i \<in> set xs" by simp
    have "notification_email (noticed {id_issue j} now db) i 0 now = Inl e"
      using Cons.prems by simp
    from Cons.IH [OF i Cons.prems(2) this] Cons.IH [OF i Cons.prems(2,3)]
    show ?thesis
      by (auto simp: send_overdue_notification_def noticed_single split: sum.splits)
  qed
qed

lemma due_soon_loop_noticed:
  "due_soon_loop db now xs tasks = (e, tasks', db') \<Longrightarrow> \<exists>S. db' = noticed S now db"
proof (induction xs arbitrary: db tasks)
  case Nil
  then show ?case by (auto intro: exI [of _ "{}"])
next
  case (Cons i xs)
  show ?case
  proof (cases "notice_wanted now i")
    case False
    with Cons show ?thesis by simp
  next
    case True
    show ?thesis
    proof (cases "notification_email db i 0 now")
      case (Inl e')
      with True Cons.prems show ?thesis
        by (auto simp: send_overdue_notification_def intro: exI [of _ "{}"])
    next
      case (Inr m)
      with True Cons.prems have
        "due_soon_loop (noticed {id_issue i} now db) now xs (tasks @ [m]) = (e, tasks', db')"
        by (simp add: send_overdue_notification_def noticed_single)
      from Cons.IH [OF this] show ?thesis by auto
    qed
  qed
qed

lemma is_Exception_all [simp]: "is_Exception e"
  by (cases e) (simp_all add: is_Exception_def)

lemma except_Exception_caught [simp]:
  "except_Exception db e =
     \<lparr>db_after = db, attempted = [], log = [Error_in_overdue_book_check e], raised = None\<rparr>"
  by (simp add: except_Exception_def)

lemma check_overdue_books_noticed:
  "\<exists>S. db_after (check_overdue_books smtp db now) = noticed S now db"
proof -
  have "\<exists>S. db = noticed S now db" by (auto intro: exI [of _ "{}"])
  then show ?thesis
    by (auto simp: check_overdue_books_def Let_def split: sum.splits option.splits prod.splits
        dest: due_soon_loop_noticed)
qed

lemma check_overdue_books_log:
  "log (check_overdue_books smtp db now) = map (send_email smtp) (attempted (check_overdue_books smtp db now))
   \<or> attempted (check_overdue_books smtp db now) = []
     \<and> (\<exists>e. log (check_overdue_books smtp db now) = [Error_in_overdue_book_check e])"
  by (auto simp: check_overdue_books_def Let_def split: sum.splits option.splits prod.splits)

lemma noticed_consistent [simp]: "consistent (noticed S now db) = consistent db"
  by (rule consistent_ledger_map [where g = "\<lambda>j. if id_issue j \<in> S then j\<lparr>last_notice_sent := Some now\<rparr> else j"])
     (simp_all add: noticed_def)

lemma exec_consistent: "consistent db \<Longrightarrow> consistent (exec db op)"
proof (cases op)
  case (Issue_book d now)
  assume c: "consistent db"
  show ?thesis
  proof (cases "issue_book db d now")
    case (Pair r db')
    then show ?thesis
      using c issue_book_raises [of db d now _ db'] issue_book_copies_consistent [of db d now _ db']
        issue_book_one_active_issue [of db d now _ db']
      by (cases r) (auto simp: Issue_book consistent_def)
  qed
next
  case (Return_book iid now)
  assume c: "consistent db"
  show ?thesis
  proof (cases "return_book db iid now")
    case (Pair r db')
    then show ?thesis
      using c return_book_raises [of db iid now _ db'] return_book_copies_consistent [of db iid now _ db']
        return_book_one_active_issue [of db iid now _ db']
      by (cases r) (auto simp: Return_book consistent_def)
  qed
next
  case (Check_overdue_books smtp now)
  assume c: "consistent db"
  from check_overdue_books_noticed [of smtp db now] obtain S where
    "db_after (check_overdue_books smtp db now) = noticed S now db" ..
  with c show ?thesis by (simp add: Check_overdue_books)
next
  case (Update_last_notice_sent iid t)
  assume c: "consistent db"
  have "update_last_notice_sent db iid t = noticed {iid} t db"
    by (simp add: update_last_notice_sent_def noticed_def)
  with c show ?thesis by (simp add: Update_last_notice_sent)
qed

lemma run_consistent: "consistent db \<Longrightarrow> consistent (run db ops)"
  unfolding run_def by (induction ops arbitrary: db) (simp_all add: exec_consistent)

lemma distinct_map_filter_le1:
  "distinct (map f xs) \<longleftrightarrow> (\<forall>k. length (filter (\<lambda>x. f x = k) xs) \<le> 1)"
proof (induction xs)
  case Nil
  then show ?case by simp
next
  case (Cons x xs)
  have "f x \<notin> f ` set xs \<longleftrightarrow> length (filter (\<lambda>y. f y = f x) xs) = 0"
    by (simp add: filter_empty_conv image_iff) metis
  with Cons show ?case
    by (auto simp: le_Suc_eq)
qed

lemma one_active_issue_iff:
  "one_active_issue db \<longleftrightarrow>
     (\<forall>bk st. length (filter (\<lambda>i. book_id i = bk \<and> student_id i = st \<and> \<not> is_returned i)
                        (issues db)) \<le> 1)"
proof -
  have "filter (\<lambda>i. (book_id i, student_id i) = k) (filter (\<lambda>i. \<not> is_returned i) (issues db))
      = filter (\<lambda>i. book_id i = fst k \<and> student_id i = snd k \<and> \<not> is_returned i) (issues db)"
    for k
    by (cases k) (auto intro: filter_cong)
  then show ?thesis
    by (simp add: one_active_issue_def distinct_map_filter_le1)
qed

lemma consistent_library: "consistent library"
  by (simp add: consistent_def copies_consistent_def one_active_issue_def library_def unreturned_def)

lemma scalar_one_or_none_rows [simp]:
  "scalar_one_or_none [] = Inr None" "scalar_one_or_none [r] = Inr (Some r)"
  by (simp_all add: scalar_one_or_none_def)

lemma distinct_map_filter_single:
  "distinct (map f xs) \<Longrightarrow> x \<in> set xs \<Longrightarrow> filter (\<lambda>y. f y = f x) xs = [x]"
proof (induction xs)
  case Nil
  then show ?case by simp
next
  case (Cons a xs)
  show ?case
  proof (cases "a = x")
    case True
    with Cons.prems have "\<forall>y\<in>set xs. f y \<noteq> f x" by (auto simp: image_iff)
    then have "filter (\<lambda>y. f y = f x) xs = []" by (simp add: filter_empty_conv)
    with True show ?thesis by simp
  next
    case False
    with Cons.prems have "x \<in> set xs" and "f a \<noteq> f x" by (auto simp: image_iff)
    with Cons show ?thesis by simp
  qed
qed

lemma book_row:
  assumes "primary_keys db" "bk \<in> set (books db)" "id_book bk = k"
  shows "filter (\<lambda>b. id_book b = k) (books db) = [bk]"
  using assms distinct_map_filter_single [of id_book "books db" bk]
  by (auto simp: primary_keys_def)

lemma student_row:
  assumes "primary_keys db" "st \<in> set (students db)" "user_id st = k"
  shows "filter (\<lambda>s. user_id s = k) (students db) = [st]"
  using assms distinct_map_filter_single [of user_id "students db" st]
  by (auto simp: primary_keys_def)

lemma issue_row:
  assumes "primary_keys db" "i \<in> set (issues db)" "id_issue i = k"
  shows "filter (\<lambda>j. id_issue j = k) (issues db) = [i]"
  using assms distinct_map_filter_single [of id_issue "issues db" i]
  by (auto simp: primary_keys_def)

lemma active_issue_row:
  assumes "one_active_issue db" "i \<in> set (issues db)" "\<not> is_returned i"
  shows "filter (\<lambda>j. book_id j = book_id i \<and> student_id j = student_id i \<and> is_returned j = False)
           (issues db) = [i]"
proof -
  have "filter (\<lambda>j. book_id j = book_id i \<and> student_id j = student_id i \<and> is_returned j = False)
           (issues db)
      = filter (\<lambda>j. (book_id j, student_id j) = (book_id i, student_id i))
          (filter (\<lambda>j. \<not> is_returned j) (issues db))"
    unfolding filter_filter by (rule filter_cong) auto
  also from assms have "\<dots> = [i]"
    unfolding one_active_issue_def
    by (intro distinct_map_filter_single) simp_all
  finally show ?thesis .
qed

subsection \<open>The copy counts and the ledger stay consistent\<close>

text \<open>
  Claim C1. Starting from a consistent database, after any sequence of
  \<^verbatim>\<open>issue_book\<close> and \<^verbatim>\<open>return_book\<close> calls (a call that raises leaves the database as
  it was; sweeps and \<^verbatim>\<open>update_last_notice_sent\<close> may be interleaved) every book has
  \<open>available_copies = total_copies - (number of its unreturned issues)\<close> with
  \<open>0 \<le> available_copies \<le> total_copies\<close>, and every pair of a book and a student has at
  most one unreturned issue.
\<close>

theorem consistency_preserved:
  assumes "consistent db"
  shows "(\<forall>b\<in>set (books (run db ops)).
            available_copies b =
              total_copies b
              - int (length (filter (\<lambda>i. book_id i = id_book b \<and> \<not> is_returned i)
                               (issues (run db ops))))
            \<and> 0 \<le> available_copies b \<and> available_copies b \<le> total_copies b)
       \<and> (\<forall>bk st. length (filter (\<lambda>i. book_id i = bk \<and> student_id i = st \<and> \<not> is_returned i)
                              (issues (run db ops))) \<le> 1)"
proof -
  from assms have "consistent (run db ops)" by (rule run_consistent)
  then show ?thesis
    unfolding consistent_def copies_consistent_def unreturned_def one_active_issue_iff .
qed

theorem consistency_preserved_witness:
  "consistent library
   \<and> (\<forall>bk st. length (filter (\<lambda>i. book_id i = bk \<and> student_id i = st \<and> \<not> is_returned i)
                          (issues (run library
                             [Issue_book (IssueCreate 1 10) noon,
                              Issue_book (IssueCreate 1 11) noon,
                              Return_book 1 (noon + day),
                              Issue_book (IssueCreate 1 11) (noon + 2 * day)]))) \<le> 1)"
proof -
  have h: "consistent library"
    by (simp add: consistent_def copies_consistent_def one_active_issue_def library_def
        unreturned_def)
  from consistency_preserved [OF h] have
    "\<forall>bk st. length (filter (\<lambda>i. book_id i = bk \<and> student_id i = st \<and> \<not> is_returned i)
                          (issues (run library
                             [Issue_book (IssueCreate 1 10) noon,
                              Issue_book (IssueCreate 1 11) noon,
                              Return_book 1 (noon + day),
                              Issue_book (IssueCreate 1 11) (noon + 2 * day)]))) \<le> 1"
    by (rule conjunct2)
  with h show ?thesis by (rule conjI)
qed

subsection \<open>The contract of \<^verbatim>\<open>issue_book\<close>\<close>

text \<open>
  Claim C2, as stated, does not hold: an unknown student does not always raise 404
  (NotFound). The book is looked up and its copies are counted before the student is
  looked up, so a request for a book without copies by an unknown student raises 400
  (Conflict). Below, the first book of \<open>lent\<close> has no copy left and no student has the
  number 99.
\<close>

theorem issue_book_unknown_student_no_copies:
  "filter (\<lambda>s. user_id s = student_id_in (IssueCreate 1 99)) (students lent) = []
   \<and> issue_book lent (IssueCreate 1 99) noon =
       (Inl (HTTPException 400 ''No available copies of this book''), lent)
   \<and> fst (issue_book lent (IssueCreate 1 99) noon) \<noteq> Inl (HTTPException 404 ''Student not found'')"
  by (simp add: issue_book_def lent_def IssueCreate_def)

text \<open>
  Claim C2, amended. On a database whose primary keys are unique and that has at most one
  unreturned issue per book and student, \<^verbatim>\<open>issue_book\<close> tests in this order: an unknown
  book raises 404 (NotFound); a book with \<open>available_copies \<le> 0\<close> raises 400 (Conflict),
  whether the student exists or not; for a book with a copy left, an unknown student
  raises 404 (NotFound); for a known student, an unreturned issue of the book to the
  student raises 400 (Conflict). A failing call leaves the database as it was. When none
  of the four holds and the loan period is a number of days that keeps the due date
  within the range of dates, the call returns the new issue, unreturned, with
  \<open>due_date = now + days_to_return\<close>, and the issue is the new last row of the table.
  The loan period of a request that does not give one is 14 days.
\<close>

theorem issue_book_contract:
  assumes "primary_keys db" and "one_active_issue db"
  shows
    "((\<forall>b\<in>set (books db). id_book b \<noteq> book_id_in d) \<longrightarrow>
        issue_book db d now = (Inl (HTTPException 404 ''Book not found''), db))
   \<and> (\<forall>bk\<in>set (books db). id_book bk = book_id_in d \<and> available_copies bk \<le> 0 \<longrightarrow>
        issue_book db d now = (Inl (HTTPException 400 ''No available copies of this book''), db))
   \<and> (\<forall>bk\<in>set (books db). id_book bk = book_id_in d \<and> 0 < available_copies bk
          \<and> (\<forall>s\<in>set (students db). user_id s \<noteq> student_id_in d) \<longrightarrow>
        issue_book db d now = (Inl (HTTPException 404 ''Student not found''), db))
   \<and> (\<forall>bk\<in>set (books db). id_book bk = book_id_in d \<and> 0 < available_copies bk
          \<and> (\<exists>s\<in>set (students db). user_id s = student_id_in d)
          \<and> (\<exists>i\<in>set (issues db). book_id i = book_id_in d \<and> student_id i = student_id_in d
                \<and> \<not> is_returned i) \<longrightarrow>
        issue_book db d now =
          (Inl (HTTPException 400 ''Student already has this book issued''), db))
   \<and> (\<forall>bk\<in>set (books db). \<forall>n. id_book bk = book_id_in d \<and> 0 < available_copies bk
          \<and> (\<exists>s\<in>set (students db). user_id s = student_id_in d)
          \<and> (\<forall>i\<in>set (issues db). \<not> (book_id i = book_id_in d \<and> student_id i = student_id_in d
                \<and> \<not> is_returned i))
          \<and> days_to_return d = Some n \<and> - 999999999 \<le> n \<and> n \<le> 999999999
          \<and> 0 \<le> now + n * day \<and> now + n * day \<le> datetime_max \<longrightarrow>
        fst (issue_book db d now) =
          Inr \<lparr>id_issue = issues_id_seq db, book_id = book_id_in d,
               student_id = student_id_in d, issue_date = now, due_date = now + n * day,
               return_date = None, is_returned = False, overdue_notices_sent = 0,
               last_notice_sent = None\<rparr>
        \<and> issues (snd (issue_book db d now)) =
            issues db @
              [\<lparr>id_issue = issues_id_seq db, book_id = book_id_in d,
                student_id = student_id_in d, issue_date = now, due_date = now + n * day,
                return_date = None, is_returned = False, overdue_notices_sent = 0,
                last_notice_sent = None\<rparr>])
   \<and> days_to_return (IssueCreate b s) = Some 14"
proof (intro conjI ballI allI impI)
  assume "\<forall>b\<in>set (books db). id_book b \<noteq> book_id_in d"
  then have "filter (\<lambda>b. id_book b = book_id_in d) (books db) = []"
    by (simp add: filter_empty_conv)
  then show "issue_book db d now = (Inl (HTTPException 404 ''Book not found''), db)"
    by (simp add: issue_book_def)
next
  fix bk assume "bk \<in> set (books db)" "id_book bk = book_id_in d \<and> available_copies bk \<le> 0"
  with book_row [OF assms(1)] show
    "issue_book db d now = (Inl (HTTPException 400 ''No available copies of this book''), db)"
    by (simp add: issue_book_def)
next
  fix bk assume bk: "bk \<in> set (books db)"
    and h: "id_book bk = book_id_in d \<and> 0 < available_copies bk
          \<and> (\<forall>s\<in>set (students db). user_id s \<noteq> student_id_in d)"
  then have "filter (\<lambda>s. user_id s = student_id_in d) (students db) = []"
    by (simp add: filter_empty_conv)
  with book_row [OF assms(1) bk] h show
    "issue_book db d now = (Inl (HTTPException 404 ''Student not found''), db)"
    by (simp add: issue_book_def)
next
  fix bk assume bk: "bk \<in> set (books db)"
    and h: "id_book bk = book_id_in d \<and> 0 < available_copies bk
          \<and> (\<exists>s\<in>set (students db). user_id s = student_id_in d)
          \<and> (\<exists>i\<in>set (issues db). book_id i = book_id_in d \<and> student_id i = student_id_in d
                \<and> \<not> is_returned i)"
  then obtain st i where st: "st \<in> set (students db)" "user_id st = student_id_in d"
    and i: "i \<in> set (issues db)" "book_id i = book_id_in d" "student_id i = student_id_in d"
      "\<not> is_returned i"
    by auto
  from active_issue_row [OF assms(2) i(1,4)] i(2,3) book_row [OF assms(1) bk]
    student_row [OF assms(1) st] h
  show "issue_book db d now =
          (Inl (HTTPException 400 ''Student already has this book issued''), db)"
    by (simp add: issue_book_def)
next
  fix bk n assume bk: "bk \<in> set (books db)"
    and h: "id_book bk = book_id_in d \<and> 0 < available_copies bk
          \<and> (\<exists>s\<in>set (students db). user_id s = student_id_in d)
          \<and> (\<forall>i\<in>set (issues db). \<not> (book_id i = book_id_in d \<and> student_id i = student_id_in d
                \<and> \<not> is_returned i))
          \<and> days_to_return d = Some n \<and> - 999999999 \<le> n \<and> n \<le> 999999999
          \<and> 0 \<le> now + n * day \<and> now + n * day \<le> datetime_max"
  then obtain st where st: "st \<in> set (students db)" "user_id st = student_id_in d"
    by auto
  from h have none: "filter (\<lambda>i. book_id i = book_id_in d \<and> student_id i = student_id_in d
                \<and> is_returned i = False) (issues db) = []"
    by (simp add: filter_empty_conv)
  from none book_row [OF assms(1) bk] student_row [OF assms(1) st] h
  have "issue_book db d now =
     (Inr \<lparr>id_issue = issues_id_seq db, book_id = book_id_in d,
               student_id = student_id_in d, issue_date = now, due_date = now + n * day,
               return_date = None, is_returned = False, overdue_notices_sent = 0,
               last_notice_sent = None\<rparr>,
      db\<lparr>issues := issues db @ [\<lparr>id_issue = issues_id_seq db, book_id = book_id_in d,
               student_id = student_id_in d, issue_date = now, due_date = now + n * day,
               return_date = None, is_returned = False, overdue_notices_sent = 0,
               last_notice_sent = None\<rparr>],
         issues_id_seq := issues_id_seq db + 1,
         books := map (\<lambda>b. if id_book b = book_id_in d
                            then b\<lparr>available_copies := available_copies b - 1\<rparr>
                            else b) (books db)\<rparr>)"
    by (simp add: issue_book_def timedelta_days_def datetime_add_def Let_def)
  then show "fst (issue_book db d now) =
          Inr \<lparr>id_issue = issues_id_seq db, book_id = book_id_in d,
               student_id = student_id_in d, issue_date = now, due_date = now + n * day,
               return_date = None, is_returned = False, overdue_notices_sent = 0,
               last_notice_sent = None\<rparr>"
    and "issues (snd (issue_book db d now)) =
            issues db @
              [\<lparr>id_issue = issues_id_seq db, book_id = book_id_in d,
                student_id = student_id_in d, issue_date = now, due_date = now + n * day,
                return_date = None, is_returned = False, overdue_notices_sent = 0,
                last_notice_sent = None\<rparr>]"
    by simp_all
next
  show "days_to_return (IssueCreate b s) = Some 14"
    by (simp add: IssueCreate_def)
qed

theorem issue_book_contract_witness:
  "primary_keys library \<and> one_active_issue library
   \<and> fst (issue_book library (IssueCreate 1 10) noon) =
       Inr \<lparr>id_issue = 1, book_id = 1, student_id = 10, issue_date = noon,
            due_date = noon + 14 * day, return_date = None, is_returned = False,
            overdue_notices_sent = 0, last_notice_sent = None\<rparr>"
proof -
  have k: "primary_keys library"
    by (simp add: primary_keys_def library_def)
  have o: "one_active_issue library"
    by (simp add: one_active_issue_def library_def)
  have "fst (issue_book library (IssueCreate 1 10) noon) =
       Inr \<lparr>id_issue = 1, book_id = 1, student_id = 10, issue_date = noon,
            due_date = noon + 14 * day, return_date = None, is_returned = False,
            overdue_notices_sent = 0, last_notice_sent = None\<rparr>"
    using issue_book_contract [OF k o, of "IssueCreate 1 10" noon]
    by (simp add: library_def IssueCreate_def noon_def day_def datetime_max_def)
  with k o show ?thesis by simp
qed

subsection \<open>The contract of \<^verbatim>\<open>return_book\<close>\<close>

text \<open>
  Claim C3. \<^verbatim>\<open>return_book\<close> raises 404 (NotFound) when no issue has the given id, and
  raises 400 (Conflict) when the issue is already returned; in both cases the database,
  and with it \<open>return_date\<close>, is unchanged. Otherwise it sets \<open>is_returned\<close>, sets
  \<open>return_date\<close> to the current time, and adds one to \<open>available_copies\<close> of the issue's
  book.
\<close>

theorem return_book_contract:
  assumes "primary_keys db"
  shows
    "((\<forall>i\<in>set (issues db). id_issue i \<noteq> k) \<longrightarrow>
        return_book db k now = (Inl (HTTPException 404 ''Issue record not found''), db))
   \<and> (\<forall>i\<in>set (issues db). id_issue i = k \<and> is_returned i \<longrightarrow>
        return_book db k now = (Inl (HTTPException 400 ''Book already returned''), db))
   \<and> (\<forall>i\<in>set (issues db). id_issue i = k \<and> \<not> is_returned i \<longrightarrow>
        fst (return_book db k now) = Inr (i\<lparr>is_returned := True, return_date := Some now\<rparr>)
        \<and> issues (snd (return_book db k now)) =
            map (\<lambda>j. if id_issue j = k
                      then j\<lparr>is_returned := True, return_date := Some now\<rparr> else j) (issues db)
        \<and> books (snd (return_book db k now)) =
            map (\<lambda>b. if id_book b = book_id i
                      then b\<lparr>available_copies := available_copies b + 1\<rparr> else b) (books db))"
proof (intro conjI ballI impI)
  assume "\<forall>i\<in>set (issues db). id_issue i \<noteq> k"
  then have "filter (\<lambda>i. id_issue i = k) (issues db) = []"
    by (simp add: filter_empty_conv)
  then show "return_book db k now = (Inl (HTTPException 404 ''Issue record not found''), db)"
    by (simp add: return_book_def)
next
  fix i assume "i \<in> set (issues db)" "id_issue i = k \<and> is_returned i"
  with issue_row [OF assms] show
    "return_book db k now = (Inl (HTTPException 400 ''Book already returned''), db)"
    by (simp add: return_book_def)
next
  fix i assume i: "i \<in> set (issues db)" "id_issue i = k \<and> \<not> is_returned i"
  with issue_row [OF assms] have
    "return_book db k now =
       (Inr (i\<lparr>is_returned := True, return_date := Some now\<rparr>),
        db\<lparr>issues := map (\<lambda>j. if id_issue j = k
                      then j\<lparr>is_returned := True, return_date := Some now\<rparr> else j) (issues db),
           books := map (\<lambda>b. if id_book b = book_id i
                      then b\<lparr>available_copies := available_copies b + 1\<rparr> else b) (books db)\<rparr>)"
    by (simp add: return_book_def)
  then show "fst (return_book db k now) = Inr (i\<lparr>is_returned := True, return_date := Some now\<rparr>)"
    and "issues (snd (return_book db k now)) =
            map (\<lambda>j. if id_issue j = k
                      then j\<lparr>is_returned := True, return_date := Some now\<rparr> else j) (issues db)"
    and "books (snd (return_book db k now)) =
            map (\<lambda>b. if id_book b = book_id i
                      then b\<lparr>available_copies := available_copies b + 1\<rparr> else b) (books db)"
    by simp_all
qed

theorem return_book_contract_witness:
  "primary_keys lent
   \<and> fst (return_book lent 1 (noon + day)) =
       Inr \<lparr>id_issue = 1, book_id = 1, student_id = 10, issue_date = noon,
            due_date = noon + 14 * day, return_date = Some (noon + day), is_returned = True,
            overdue_notices_sent = 0, last_notice_sent = None\<rparr>
   \<and> map available_copies (books (snd (return_book lent 1 (noon + day)))) = [1, 2]"
proof -
  have k: "primary_keys lent"
    by (simp add: primary_keys_def lent_def)
  have "fst (return_book lent 1 (noon + day)) =
       Inr \<lparr>id_issue = 1, book_id = 1, student_id = 10, issue_date = noon,
            due_date = noon + 14 * day, return_date = Some (noon + day), is_returned = True,
            overdue_notices_sent = 0, last_notice_sent = None\<rparr>
     \<and> map available_copies (books (snd (return_book lent 1 (noon + day)))) = [1, 2]"
    using return_book_contract [OF k, of 1 "noon + day"]
    by (simp add: lent_def)
  with k show ?thesis by simp
qed

subsection \<open>Both changes or none\<close>

text \<open>
  Claim C4. A call of \<^verbatim>\<open>issue_book\<close> or \<^verbatim>\<open>return_book\<close> that raises leaves the database
  as it was: no issue row is added, no issue field and no copy count changes. A call that
  returns has changed both tables: the issue is added (or marked returned) and the row of
  its book, which exists, has its \<open>available_copies\<close> lowered (or raised) by one. Issuing
  a book with \<open>available_copies = 0\<close> raises 400 and changes nothing.
\<close>

theorem issue_return_atomic:
  assumes "primary_keys db" and "foreign_keys db"
  shows
    "(\<forall>e db'. issue_book db d now = (Inl e, db') \<longrightarrow> db' = db)
   \<and> (\<forall>iss db'. issue_book db d now = (Inr iss, db') \<longrightarrow>
        issues db' = issues db @ [iss] \<and> \<not> is_returned iss
        \<and> (\<exists>bk\<in>set (books db). id_book bk = book_id iss)
        \<and> books db' =
            map (\<lambda>b. if id_book b = book_id iss
                      then b\<lparr>available_copies := available_copies b - 1\<rparr> else b) (books db))
   \<and> (\<forall>e db'. return_book db k now = (Inl e, db') \<longrightarrow> db' = db)
   \<and> (\<forall>iss db'. return_book db k now = (Inr iss, db') \<longrightarrow>
        issues db' =
          map (\<lambda>j. if id_issue j = k
                    then j\<lparr>is_returned := True, return_date := Some now\<rparr> else j) (issues db)
        \<and> is_returned iss
        \<and> (\<exists>bk\<in>set (books db). id_book bk = book_id iss)
        \<and> books db' =
            map (\<lambda>b. if id_book b = book_id iss
                      then b\<lparr>available_copies := available_copies b + 1\<rparr> else b) (books db))
   \<and> (\<forall>bk\<in>set (books db). id_book bk = book_id_in d \<and> available_copies bk = 0 \<longrightarrow>
        issue_book db d now = (Inl (HTTPException 400 ''No available copies of this book''), db))"
proof (intro conjI allI ballI impI)
  fix e db' assume "issue_book db d now = (Inl e, db')"
  then show "db' = db" by (rule issue_book_raises)
next
  fix iss db' assume "issue_book db d now = (Inr iss, db')"
  from issue_book_returns [OF this] obtain bk where
    bk: "filter (\<lambda>b. id_book b = book_id_in d) (books db) = [bk]"
    and iss: "book_id iss = book_id_in d" "\<not> is_returned iss"
    and db': "db' = db\<lparr>issues := issues db @ [iss], issues_id_seq := issues_id_seq db + 1,
                books := map (\<lambda>b. if id_book b = book_id_in d
                                    then b\<lparr>available_copies := available_copies b - 1\<rparr>
                                    else b) (books db)\<rparr>"
    by auto
  from filter_single_holds [OF bk] iss(1)
  show "\<exists>bk\<in>set (books db). id_book bk = book_id iss" by auto
  show "issues db' = issues db @ [iss]" by (simp add: db')
  show "\<not> is_returned iss" by (rule iss(2))
  show "books db' =
            map (\<lambda>b. if id_book b = book_id iss
                      then b\<lparr>available_copies := available_copies b - 1\<rparr> else b) (books db)"
    by (simp add: db' iss(1))
next
  fix e db' assume "return_book db k now = (Inl e, db')"
  then show "db' = db" by (rule return_book_raises)
next
  fix iss db' assume "return_book db k now = (Inr iss, db')"
  from return_book_returns [OF this] obtain i where
    i: "filter (\<lambda>i. id_issue i = k) (issues db) = [i]"
    and iss: "iss = i\<lparr>is_returned := True, return_date := Some now\<rparr>"
    and db': "db' = db\<lparr>issues := map (\<lambda>j. if id_issue j = k
                                     then j\<lparr>is_returned := True, return_date := Some now\<rparr>
                                     else j) (issues db),
                books := map (\<lambda>b. if id_book b = book_id i
                                    then b\<lparr>available_copies := available_copies b + 1\<rparr>
                                    else b) (books db)\<rparr>"
    by auto
  from filter_single_holds [OF i] have "i \<in> set (issues db)" by simp
  with assms(2) show "\<exists>bk\<in>set (books db). id_book bk = book_id iss"
    by (simp add: foreign_keys_def iss)
  show "issues db' =
          map (\<lambda>j. if id_issue j = k
                    then j\<lparr>is_returned := True, return_date := Some now\<rparr> else j) (issues db)"
    by (simp add: db')
  show "is_returned iss" by (simp add: iss)
  show "books db' =
            map (\<lambda>b. if id_book b = book_id iss
                      then b\<lparr>available_copies := available_copies b + 1\<rparr> else b) (books db)"
    by (simp add: db' iss)
next
  fix bk assume "bk \<in> set (books db)" "id_book bk = book_id_in d \<and> available_copies bk = 0"
  with book_row [OF assms(1)] show
    "issue_book db d now = (Inl (HTTPException 400 ''No available copies of this book''), db)"
    by (simp add: issue_book_def)
qed

theorem issue_return_atomic_witness:
  "primary_keys lent \<and> foreign_keys lent
   \<and> issue_book lent (IssueCreate 1 11) noon =
       (Inl (HTTPException 400 ''No available copies of this book''), lent)"
proof -
  have k: "primary_keys lent"
    by (simp add: primary_keys_def lent_def)
  have f: "foreign_keys lent"
    by (simp add: foreign_keys_def lent_def)
  have "issue_book lent (IssueCreate 1 11) noon =
       (Inl (HTTPException 400 ''No available copies of this book''), lent)"
    using issue_return_atomic [OF k f, of "IssueCreate 1 11" noon]
    by (simp add: lent_def IssueCreate_def)
  with k f show ?thesis by simp
qed

subsection \<open>The issues that are due soon\<close>

text \<open>
  Claim C5. For a window of \<open>n\<close> days that keeps \<open>now + n days\<close> within the range of
  dates, \<^verbatim>\<open>get_books_due_soon\<close> returns exactly the issues (each as often as the table
  holds it) with \<open>is_returned = False\<close> and \<open>now < due_date \<le> now + n days\<close>, in ascending
  order of \<open>due_date\<close>. With a window of 5 days an issue due in 3 days is returned, and
  issues due in 7 days, overdue since yesterday, or returned are not.
\<close>

theorem get_books_due_soon_exact:
  assumes "- 999999999 \<le> n" and "n \<le> 999999999"
    and "0 \<le> now + n * day" and "now + n * day \<le> datetime_max"
  shows "\<exists>xs. get_books_due_soon db n now = Inr xs
           \<and> mset xs =
               filter_mset (\<lambda>i. \<not> is_returned i \<and> now < due_date i \<and> due_date i \<le> now + n * day)
                 (mset (issues db))
           \<and> sorted (map due_date xs)"
proof -
  let ?xs = "sort_key due_date
               (filter (\<lambda>i. is_returned i = False \<and> due_date i > now
                             \<and> due_date i \<le> now + n * day) (issues db))"
  from assms have "get_books_due_soon db n now = Inr ?xs"
    by (simp add: get_books_due_soon_def timedelta_days_def datetime_add_def)
  moreover have "mset ?xs =
      filter_mset (\<lambda>i. \<not> is_returned i \<and> now < due_date i \<and> due_date i \<le> now + n * day)
        (mset (issues db))"
    by simp
  moreover have "sorted (map due_date ?xs)"
    by (rule sorted_sort_key)
  ultimately show ?thesis by blast
qed

theorem get_books_due_soon_exact_witness:
  "- 999999999 \<le> (5::int) \<and> (5::int) \<le> 999999999
   \<and> 0 \<le> noon + 5 * day \<and> noon + 5 * day \<le> datetime_max
   \<and> get_books_due_soon desk 5 noon = Inr [loan 2 2 11 (noon + 3 * day) None]"
proof -
  have r: "- 999999999 \<le> (5::int)" "(5::int) \<le> 999999999"
    "0 \<le> noon + 5 * day" "noon + 5 * day \<le> datetime_max"
    by (simp_all add: noon_def day_def datetime_max_def)
  from get_books_due_soon_exact [OF r, of desk] obtain xs where
    xs: "get_books_due_soon desk 5 noon = Inr xs"
    and m: "mset xs =
               filter_mset (\<lambda>i. \<not> is_returned i \<and> noon < due_date i \<and> due_date i \<le> noon + 5 * day)
                 (mset (issues desk))"
    by blast
  have "filter_mset (\<lambda>i. \<not> is_returned i \<and> noon < due_date i \<and> due_date i \<le> noon + 5 * day)
                 (mset (issues desk)) = {#loan 2 2 11 (noon + 3 * day) None#}"
    by (simp add: desk_def loan_def library_def noon_def day_def)
  with m have "xs = [loan 2 2 11 (noon + 3 * day) None]" by simp
  with xs r show ?thesis by simp
qed

subsection \<open>The sweep\<close>

lemma check_overdue_books_normal:
  assumes "get_books_due_soon db 5 now = Inr due_soon"
    and "map (\<lambda>i. notification_email db i (days (now - due_date i)) now)
           (get_overdue_books db now) = map Inr ms1"
    and "map (\<lambda>i. notification_email db i 0 now) (filter (notice_wanted now) due_soon)
           = map Inr ms2"
  shows "check_overdue_books smtp db now =
           \<lparr>db_after = noticed (id_issue ` set (filter (notice_wanted now) due_soon)) now db,
            attempted = ms1 @ ms2,
            log = map (send_email smtp) (ms1 @ ms2),
            raised = None\<rparr>"
  using assms(1) overdue_loop_Inr [OF assms(2), of "[]"]
    due_soon_loop_None [OF assms(3), of ms1]
  by (simp add: check_overdue_books_def)

lemma find_Some_ex: "\<exists>x\<in>set xs. P x \<Longrightarrow> \<exists>y. find P xs = Some y \<and> y \<in> set xs \<and> P y"
  by (induction xs) auto

lemma foreign_keys_email:
  assumes "foreign_keys db" and "i \<in> set (issues db)"
  shows "\<exists>m. notification_email db i d now = Inr m"
proof -
  from assms obtain bk where "issue_book_rel db i = Some bk"
    unfolding foreign_keys_def issue_book_rel_def
    using find_Some_ex [of "books db" "\<lambda>b. id_book b = book_id i"] by blast
  moreover from assms obtain st where st: "issue_student_rel db i = Some st" "st \<in> set (students db)"
    unfolding foreign_keys_def issue_student_rel_def
    using find_Some_ex [of "students db" "\<lambda>s. user_id s = student_id i"] by blast
  moreover from assms st(2) obtain u where "student_user_rel db st = Some u"
    unfolding foreign_keys_def student_user_rel_def
    using find_Some_ex [of "users db" "\<lambda>u. id_user u = user_id st"] by blast
  ultimately show ?thesis
    by (simp add: notification_email_def)
qed

lemma all_Inr_map: "\<forall>x\<in>set xs. \<exists>m. f x = Inr m \<Longrightarrow> \<exists>ms. map f xs = map Inr ms"
proof (induction xs)
  case Nil
  then show ?case by simp
next
  case (Cons x xs)
  then obtain m ms where "f x = Inr m" "map f xs = map Inr ms" by auto
  then have "map f (x # xs) = map Inr (m # ms)" by simp
  then show ?case by blast
qed

lemma notice_wanted_iff:
  "notice_wanted now i \<longleftrightarrow>
     last_notice_sent i = None \<or> (\<exists>t. last_notice_sent i = Some t \<and> now - t > day)"
  by (auto simp: notice_wanted_def split: option.splits)

lemma reminder_email: "notification_email db i 0 now = Inr m \<Longrightarrow> is_reminder m"
  by (auto simp: notification_email_def is_reminder_def split: option.splits)

lemma id_in_image_iff:
  assumes "distinct (map f xs)" and "j \<in> set xs"
  shows "f j \<in> f ` {i \<in> set xs. P i} \<longleftrightarrow> P j"
proof
  assume "f j \<in> f ` {i \<in> set xs. P i}"
  then obtain i where i: "i \<in> set xs" "P i" "f j = f i" by auto
  from assms(1) have "inj_on f (set xs)" by (simp add: distinct_map)
  with i assms(2) have "i = j" by (auto dest: inj_onD)
  with i show "P j" by simp
next
  assume "P j"
  with assms(2) show "f j \<in> f ` {i \<in> set xs. P i}" by blast
qed

subsection \<open>Notices for the issues that are due soon\<close>

text \<open>
  Claim C6. In a run of the sweep on a database whose keys are sound (and at a time that
  keeps \<open>now + 5 days\<close> within the range of dates), the messages handed to
  \<^verbatim>\<open>send_email\<close> are the messages for the overdue issues followed by one reminder for each
  due-soon issue whose \<open>last_notice_sent\<close> is unset or more than one day before \<open>now\<close>,
  and for no other due-soon issue; after the run exactly those due-soon issues have
  \<open>last_notice_sent = now\<close>, every other issue is unchanged. With notices sent 2 hours
  and 26 hours ago, only the second issue is reminded again.
\<close>

theorem due_soon_notices:
  assumes "0 \<le> now + 5 * day" and "now + 5 * day \<le> datetime_max"
    and "primary_keys db" and "foreign_keys db"
  shows "\<exists>due_soon ms1 ms2.
           get_books_due_soon db 5 now = Inr due_soon
         \<and> map Inr ms1 =
             map (\<lambda>i. notification_email db i (days (now - due_date i)) now)
               (get_overdue_books db now)
         \<and> map Inr ms2 =
             map (\<lambda>i. notification_email db i 0 now)
               (filter (\<lambda>i. last_notice_sent i = None
                             \<or> (\<exists>t. last_notice_sent i = Some t \<and> now - t > 1 * day)) due_soon)
         \<and> list_all is_reminder ms2
         \<and> attempted (check_overdue_books smtp db now) = ms1 @ ms2
         \<and> log (check_overdue_books smtp db now) = map (send_email smtp) (ms1 @ ms2)
         \<and> issues (db_after (check_overdue_books smtp db now)) =
             map (\<lambda>j. if \<not> is_returned j \<and> now < due_date j \<and> due_date j \<le> now + 5 * day
                          \<and> (last_notice_sent j = None
                              \<or> (\<exists>t. last_notice_sent j = Some t \<and> now - t > 1 * day))
                       then j\<lparr>last_notice_sent := Some now\<rparr> else j) (issues db)"
proof -
  let ?soon = "\<lambda>i. is_returned i = False \<and> due_date i > now \<and> due_date i \<le> now + 5 * day"
  let ?due_soon = "sort_key due_date (filter ?soon (issues db))"
  let ?wanted = "\<lambda>i. last_notice_sent i = None \<or> (\<exists>t. last_notice_sent i = Some t \<and> now - t > 1 * day)"
  have wanted: "notice_wanted now = ?wanted"
    by (simp add: fun_eq_iff notice_wanted_iff)
  from assms(1,2) have get: "get_books_due_soon db 5 now = Inr ?due_soon"
    by (simp add: get_books_due_soon_def timedelta_days_def datetime_add_def)
  have "\<forall>i\<in>set (get_overdue_books db now).
          \<exists>m. notification_email db i (days (now - due_date i)) now = Inr m"
    using foreign_keys_email [OF assms(4)] by (simp add: get_overdue_books_def)
  from all_Inr_map [OF this] obtain ms1 where ms1:
    "map (\<lambda>i. notification_email db i (days (now - due_date i)) now)
       (get_overdue_books db now) = map Inr ms1" ..
  have "\<forall>i\<in>set (filter (notice_wanted now) ?due_soon).
          \<exists>m. notification_email db i 0 now = Inr m"
    using foreign_keys_email [OF assms(4)] by simp
  from all_Inr_map [OF this] obtain ms2 where ms2:
    "map (\<lambda>i. notification_email db i 0 now) (filter (notice_wanted now) ?due_soon)
       = map Inr ms2" ..
  have rem: "list_all is_reminder ms2"
    unfolding list_all_iff
  proof
    fix m assume "m \<in> set ms2"
    then have "Inr m \<in> set (map (\<lambda>i. notification_email db i 0 now)
                               (filter (notice_wanted now) ?due_soon))"
      unfolding ms2 by simp
    then obtain i where "notification_email db i 0 now = Inr m"
      by auto
    then show "is_reminder m" by (rule reminder_email)
  qed
  note run = check_overdue_books_normal [OF get ms1 ms2, of smtp]
  have S: "set (filter (notice_wanted now) ?due_soon)
      = {i \<in> set (issues db). ?soon i \<and> ?wanted i}"
    unfolding wanted by auto
  have "issues (db_after (check_overdue_books smtp db now)) =
      map (\<lambda>j. if id_issue j \<in> id_issue ` {i \<in> set (issues db). ?soon i \<and> ?wanted i}
                then j\<lparr>last_notice_sent := Some now\<rparr> else j) (issues db)"
    unfolding run S noticed_def by simp
  also have "\<dots> =
      map (\<lambda>j. if \<not> is_returned j \<and> now < due_date j \<and> due_date j \<le> now + 5 * day \<and> ?wanted j
                then j\<lparr>last_notice_sent := Some now\<rparr> else j) (issues db)"
  proof (rule map_cong [OF refl])
    fix j assume "j \<in> set (issues db)"
    with assms(3) have "id_issue j \<in> id_issue ` {i \<in> set (issues db). ?soon i \<and> ?wanted i}
        \<longleftrightarrow> ?soon j \<and> ?wanted j"
      by (intro id_in_image_iff) (simp_all add: primary_keys_def)
    then show "(if id_issue j \<in> id_issue ` {i \<in> set (issues db). ?soon i \<and> ?wanted i}
                then j\<lparr>last_notice_sent := Some now\<rparr> else j)
             = (if \<not> is_returned j \<and> now < due_date j \<and> due_date j \<le> now + 5 * day \<and> ?wanted j
                then j\<lparr>last_notice_sent := Some now\<rparr> else j)"
      by simp
  qed
  finally have db': "issues (db_after (check_overdue_books smtp db now)) =
      map (\<lambda>j. if \<not> is_returned j \<and> now < due_date j \<and> due_date j \<le> now + 5 * day \<and> ?wanted j
                then j\<lparr>last_notice_sent := Some now\<rparr> else j) (issues db)" .
  show ?thesis
  proof (intro exI conjI)
    show "get_books_due_soon db 5 now = Inr ?due_soon" by (rule get)
    show "map Inr ms1 = map (\<lambda>i. notification_email db i (days (now - due_date i)) now)
               (get_overdue_books db now)"
      by (rule ms1 [symmetric])
    show "map Inr ms2 = map (\<lambda>i. notification_email db i 0 now) (filter ?wanted ?due_soon)"
      using ms2 unfolding wanted by (rule sym)
    show "list_all is_reminder ms2" by (rule rem)
    show "attempted (check_overdue_books smtp db now) = ms1 @ ms2"
      unfolding run by simp
    show "log (check_overdue_books smtp db now) = map (send_email smtp) (ms1 @ ms2)"
      unfolding run by simp
    show "issues (db_after (check_overdue_books smtp db now)) =
      map (\<lambda>j. if \<not> is_returned j \<and> now < due_date j \<and> due_date j \<le> now + 5 * day \<and> ?wanted j
                then j\<lparr>last_notice_sent := Some now\<rparr> else j) (issues db)"
      by (rule db')
  qed
qed

theorem due_soon_notices_witness:
  "0 \<le> noon + 5 * day \<and> noon + 5 * day \<le> datetime_max
   \<and> primary_keys reminders \<and> foreign_keys reminders
   \<and> attempted (check_overdue_books accepting reminders noon) =
       [\<lparr>email_list = [''b@example.org''], subject = ''Book Return Reminder: Emma'',
         body = Reminder ''B'' ''Emma'' 3 (noon + 3 * day)\<rparr>]
   \<and> map last_notice_sent (issues (db_after (check_overdue_books accepting reminders noon))) =
       [Some (noon - 2 * hour), Some noon]"
proof -
  have r: "0 \<le> noon + 5 * day" "noon + 5 * day \<le> datetime_max"
    by (simp_all add: noon_def day_def datetime_max_def)
  have k: "primary_keys reminders"
    by (simp add: primary_keys_def reminders_def library_def loan_def)
  have f: "foreign_keys reminders"
    by (simp add: foreign_keys_def reminders_def library_def loan_def)
  from due_soon_notices [OF r k f, of accepting] obtain due_soon ms1 ms2 where
    get: "get_books_due_soon reminders 5 noon = Inr due_soon"
    and ms1: "map Inr ms1 =
             map (\<lambda>i. notification_email reminders i (days (noon - due_date i)) noon)
               (get_overdue_books reminders noon)"
    and ms2: "map Inr ms2 =
             map (\<lambda>i. notification_email reminders i 0 noon)
               (filter (\<lambda>i. last_notice_sent i = None
                             \<or> (\<exists>t. last_notice_sent i = Some t \<and> noon - t > 1 * day)) due_soon)"
    and att: "attempted (check_overdue_books accepting reminders noon) = ms1 @ ms2"
    and db': "issues (db_after (check_overdue_books accepting reminders noon)) =
             map (\<lambda>j. if \<not> is_returned j \<and> noon < due_date j \<and> due_date j \<le> noon + 5 * day
                          \<and> (last_notice_sent j = None
                              \<or> (\<exists>t. last_notice_sent j = Some t \<and> noon - t > 1 * day))
                       then j\<lparr>last_notice_sent := Some noon\<rparr> else j) (issues reminders)"
    by blast
  have "get_books_due_soon reminders 5 noon =
      Inr [loan 1 1 10 (noon + 2 * day) (Some (noon - 2 * hour)),
           loan 2 2 11 (noon + 3 * day) (Some (noon - 26 * hour))]"
    by (simp add: get_books_due_soon_def timedelta_days_def datetime_add_def reminders_def
        library_def loan_def noon_def day_def hour_def datetime_max_def)
  with get have due_soon: "due_soon =
      [loan 1 1 10 (noon + 2 * day) (Some (noon - 2 * hour)),
       loan 2 2 11 (noon + 3 * day) (Some (noon - 26 * hour))]"
    by simp
  have "get_overdue_books reminders noon = []"
    by (simp add: get_overdue_books_def reminders_def library_def loan_def noon_def day_def)
  with ms1 have e1: "ms1 = []" by simp
  have e2: "map (\<lambda>i. notification_email reminders i 0 noon)
               (filter (\<lambda>i. last_notice_sent i = None
                             \<or> (\<exists>t. last_notice_sent i = Some t \<and> noon - t > 1 * day)) due_soon) =
      [Inr \<lparr>email_list = [''b@example.org''], subject = ''Book Return Reminder: Emma'',
            body = Reminder ''B'' ''Emma'' 3 (noon + 3 * day)\<rparr>]"
    unfolding due_soon
    by (simp add: notification_email_def issue_book_rel_def issue_student_rel_def
        student_user_rel_def reminders_def library_def loan_def noon_def day_def hour_def
        days_def)
  have "map Inr ms2 =
      [Inr \<lparr>email_list = [''b@example.org''], subject = ''Book Return Reminder: Emma'',
            body = Reminder ''B'' ''Emma'' 3 (noon + 3 * day)\<rparr> :: exn + EmailSchema]"
    by (rule trans [OF ms2 e2])
  then have "ms2 = [\<lparr>email_list = [''b@example.org''], subject = ''Book Return Reminder: Emma'',
            body = Reminder ''B'' ''Emma'' 3 (noon + 3 * day)\<rparr>]"
    by (simp add: map_eq_Cons_conv)
  with e1 have a: "attempted (check_overdue_books accepting reminders noon) =
       [\<lparr>email_list = [''b@example.org''], subject = ''Book Return Reminder: Emma'',
         body = Reminder ''B'' ''Emma'' 3 (noon + 3 * day)\<rparr>]"
    by (simp add: att)
  have b: "map last_notice_sent (issues (db_after (check_overdue_books accepting reminders noon))) =
       [Some (noon - 2 * hour), Some noon]"
    unfolding db'
    by (simp add: reminders_def library_def loan_def noon_def day_def hour_def)
  from r k f a b show ?thesis by simp
qed

lemma send_email_eq:
  "send_email smtp =
     (\<lambda>m. case smtp m of None \<Rightarrow> Email_sent (email_list m) | Some e \<Rightarrow> Error_sending_email e)"
  by (simp add: fun_eq_iff send_email_def)

subsection \<open>Notices for the overdue issues\<close>

text \<open>
  Claim C7. The sweep builds a message for every overdue issue, on every run, with
  \<open>days_overdue = \<lfloor>(now - due_date) / 1 day\<rfloor>\<close>; but \<^verbatim>\<open>send_overdue_notification\<close> writes
  the overdue notice only when \<open>days_overdue > 0\<close>. An issue that is overdue by less than
  a day has \<open>days_overdue = 0\<close> and gets the reminder for due-soon issues instead, which
  tells the student that the book is due in \<open>-1\<close> days. The theorem runs the sweep on
  an issue overdue since twelve hours.
\<close>

theorem overdue_within_a_day_gets_reminder:
  "get_overdue_books late noon = [loan 1 1 10 (noon - 12 * hour) None]
   \<and> days (noon - due_date (loan 1 1 10 (noon - 12 * hour) None)) = 0
   \<and> attempted (check_overdue_books accepting late noon) =
       [\<lparr>email_list = [''a@example.org''], subject = ''Book Return Reminder: Dune'',
         body = Reminder ''A'' ''Dune'' (- 1) (noon - 12 * hour)\<rparr>]"
proof -
  have a: "get_overdue_books late noon = [loan 1 1 10 (noon - 12 * hour) None]"
    by (simp add: get_overdue_books_def late_def library_def loan_def noon_def hour_def)
  have b: "days (noon - due_date (loan 1 1 10 (noon - 12 * hour) None)) = 0"
    by (simp add: days_def loan_def hour_def day_def)
  have c: "get_books_due_soon late 5 noon = Inr []"
    by (simp add: get_books_due_soon_def timedelta_days_def datetime_add_def late_def
        library_def loan_def noon_def day_def hour_def datetime_max_def)
  have d: "map (\<lambda>i. notification_email late i (days (noon - due_date i)) noon)
             (get_overdue_books late noon) =
           map Inr [\<lparr>email_list = [''a@example.org''], subject = ''Book Return Reminder: Dune'',
                     body = Reminder ''A'' ''Dune'' (- 1) (noon - 12 * hour)\<rparr>]"
    unfolding a
    by (simp add: notification_email_def issue_book_rel_def issue_student_rel_def
        student_user_rel_def late_def library_def loan_def days_def hour_def day_def)
  have e: "map (\<lambda>i. notification_email late i 0 noon) (filter (notice_wanted noon) []) = map Inr []"
    by simp
  from check_overdue_books_normal [OF c d e, of accepting] a b show ?thesis
    by simp
qed

subsection \<open>Failures during a run\<close>

lemma check_overdue_books_raised: "raised (check_overdue_books smtp db now) = None"
  by (simp add: check_overdue_books_def Let_def split: sum.splits option.splits prod.splits)

text \<open>
  Claim C8. No exception leaves a run of the sweep, whatever the database and the SMTP
  server are: either every queued message was handed to \<^verbatim>\<open>send_email\<close> and has its own
  record in the log, or an exception ended the run, was caught by the handler around the
  run and is the single record of the log. On a database whose foreign keys are sound (and at a time that keeps
  \<open>now + 5 days\<close> within the range of dates) every overdue issue and every due-soon issue
  that wants a notice is processed, whichever messages the SMTP server refuses: the
  message of each of them is handed to \<^verbatim>\<open>send_email\<close>, in order, and the log holds one
  record per message, which says that the message was sent or that sending it raised.
  The failure for one issue is caught and logged for that issue, and the messages of the
  remaining issues are sent all the same.
\<close>

theorem sweep_isolates_failures:
  "raised (check_overdue_books smtp db now) = None
   \<and> (log (check_overdue_books smtp db now) =
         map (\<lambda>m. case smtp m of
                    None \<Rightarrow> Email_sent (email_list m)
                  | Some e \<Rightarrow> Error_sending_email e)
           (attempted (check_overdue_books smtp db now))
       \<or> attempted (check_overdue_books smtp db now) = []
         \<and> (\<exists>e. log (check_overdue_books smtp db now) = [Error_in_overdue_book_check e]))
   \<and> (0 \<le> now + 5 * day \<and> now + 5 * day \<le> datetime_max \<and> foreign_keys db \<longrightarrow>
        (\<exists>due_soon ms1 ms2.
            get_books_due_soon db 5 now = Inr due_soon
          \<and> map Inr ms1 =
              map (\<lambda>i. notification_email db i (days (now - due_date i)) now)
                (get_overdue_books db now)
          \<and> map Inr ms2 =
              map (\<lambda>i. notification_email db i 0 now) (filter (notice_wanted now) due_soon)
          \<and> attempted (check_overdue_books smtp db now) = ms1 @ ms2
          \<and> log (check_overdue_books smtp db now) =
              map (\<lambda>m. case smtp m of
                         None \<Rightarrow> Email_sent (email_list m)
                       | Some e \<Rightarrow> Error_sending_email e) (ms1 @ ms2)))"
proof (intro conjI impI)
  show "raised (check_overdue_books smtp db now) = None"
    by (rule check_overdue_books_raised)
next
  show "log (check_overdue_books smtp db now) =
         map (\<lambda>m. case smtp m of
                    None \<Rightarrow> Email_sent (email_list m)
                  | Some e \<Rightarrow> Error_sending_email e)
           (attempted (check_overdue_books smtp db now))
       \<or> attempted (check_overdue_books smtp db now) = []
         \<and> (\<exists>e. log (check_overdue_books smtp db now) = [Error_in_overdue_book_check e])"
    using check_overdue_books_log [of smtp db now] unfolding send_email_eq .
next
  assume h: "0 \<le> now + 5 * day \<and> now + 5 * day \<le> datetime_max \<and> foreign_keys db"
  let ?due_soon = "sort_key due_date
      (filter (\<lambda>i. is_returned i = False \<and> due_date i > now \<and> due_date i \<le> now + 5 * day)
         (issues db))"
  from h have get: "get_books_due_soon db 5 now = Inr ?due_soon"
    by (simp add: get_books_due_soon_def timedelta_days_def datetime_add_def)
  from h have fk: "foreign_keys db" by simp
  have "\<forall>i\<in>set (get_overdue_books db now).
          \<exists>m. notification_email db i (days (now - due_date i)) now = Inr m"
    using foreign_keys_email [OF fk] by (simp add: get_overdue_books_def)
  from all_Inr_map [OF this] obtain ms1 where ms1:
    "map (\<lambda>i. notification_email db i (days (now - due_date i)) now)
       (get_overdue_books db now) = map Inr ms1" ..
  have "\<forall>i\<in>set (filter (notice_wanted now) ?due_soon).
          \<exists>m. notification_email db i 0 now = Inr m"
    using foreign_keys_email [OF fk] by simp
  from all_Inr_map [OF this] obtain ms2 where ms2:
    "map (\<lambda>i. notification_email db i 0 now) (filter (notice_wanted now) ?due_soon)
       = map Inr ms2" ..
  note run = check_overdue_books_normal [OF get ms1 ms2, of smtp]
  show "\<exists>due_soon ms1 ms2.
            get_books_due_soon db 5 now = Inr due_soon
          \<and> map Inr ms1 =
              map (\<lambda>i. notification_email db i (days (now - due_date i)) now)
                (get_overdue_books db now)
          \<and> map Inr ms2 =
              map (\<lambda>i. notification_email db i 0 now) (filter (notice_wanted now) due_soon)
          \<and> attempted (check_overdue_books smtp db now) = ms1 @ ms2
          \<and> log (check_overdue_books smtp db now) =
              map (\<lambda>m. case smtp m of
                         None \<Rightarrow> Email_sent (email_list m)
                       | Some e \<Rightarrow> Error_sending_email e) (ms1 @ ms2)"
  proof (intro exI conjI)
    show "get_books_due_soon db 5 now = Inr ?due_soon" by (rule get)
    show "map Inr ms1 = map (\<lambda>i. notification_email db i (days (now - due_date i)) now)
               (get_overdue_books db now)"
      by (rule ms1 [symmetric])
    show "map Inr ms2 = map (\<lambda>i. notification_email db i 0 now)
               (filter (notice_wanted now) ?due_soon)"
      by (rule ms2 [symmetric])
    show "attempted (check_overdue_books smtp db now) = ms1 @ ms2"
      unfolding run by simp
    show "log (check_overdue_books smtp db now) =
              map (\<lambda>m. case smtp m of
                         None \<Rightarrow> Email_sent (email_list m)
                       | Some e \<Rightarrow> Error_sending_email e) (ms1 @ ms2)"
      unfolding run send_email_eq by simp
  qed
qed

theorem sweep_isolates_failures_witness:
  "0 \<le> noon + 5 * day \<and> noon + 5 * day \<le> datetime_max \<and> foreign_keys desk
   \<and> attempted (check_overdue_books (refusing ''a@example.org'') desk noon) =
       [\<lparr>email_list = [''a@example.org''], subject = ''Book Return Reminder: Emma'',
         body = Overdue_notice ''A'' ''Emma'' ''Austen'' 1 (noon - 1 * day)\<rparr>,
        \<lparr>email_list = [''b@example.org''], subject = ''Book Return Reminder: Emma'',
         body = Reminder ''B'' ''Emma'' 3 (noon + 3 * day)\<rparr>]
   \<and> log (check_overdue_books (refusing ''a@example.org'') desk noon) =
       [Error_sending_email SMTPException, Email_sent [''b@example.org'']]
   \<and> raised (check_overdue_books (refusing ''a@example.org'') desk noon) = None"
proof -
  have r: "0 \<le> noon + 5 * day \<and> noon + 5 * day \<le> datetime_max"
    by (simp add: noon_def day_def datetime_max_def)
  have f: "foreign_keys desk"
    by (simp add: foreign_keys_def desk_def library_def loan_def)
  from sweep_isolates_failures [of "refusing ''a@example.org''" desk noon] r f
  obtain due_soon ms1 ms2 where
    get: "get_books_due_soon desk 5 noon = Inr due_soon"
    and ms1: "map Inr ms1 =
              map (\<lambda>i. notification_email desk i (days (noon - due_date i)) noon)
                (get_overdue_books desk noon)"
    and ms2: "map Inr ms2 =
              map (\<lambda>i. notification_email desk i 0 noon) (filter (notice_wanted noon) due_soon)"
    and att: "attempted (check_overdue_books (refusing ''a@example.org'') desk noon) = ms1 @ ms2"
    and lg: "log (check_overdue_books (refusing ''a@example.org'') desk noon) =
              map (\<lambda>m. case refusing ''a@example.org'' m of
                         None \<Rightarrow> Email_sent (email_list m)
                       | Some e \<Rightarrow> Error_sending_email e) (ms1 @ ms2)"
    and rs: "raised (check_overdue_books (refusing ''a@example.org'') desk noon) = None"
    by blast
  have "get_books_due_soon desk 5 noon = Inr [loan 2 2 11 (noon + 3 * day) None]"
    by (simp add: get_books_due_soon_def timedelta_days_def datetime_add_def desk_def
        library_def loan_def noon_def day_def datetime_max_def)
  with get have due_soon: "due_soon = [loan 2 2 11 (noon + 3 * day) None]"
    by simp
  have o: "get_overdue_books desk noon = [loan 3 2 10 (noon - 1 * day) None]"
    by (simp add: get_overdue_books_def desk_def library_def loan_def noon_def day_def)
  have e1: "map (\<lambda>i. notification_email desk i (days (noon - due_date i)) noon)
             (get_overdue_books desk noon) =
           [Inr \<lparr>email_list = [''a@example.org''], subject = ''Book Return Reminder: Emma'',
                 body = Overdue_notice ''A'' ''Emma'' ''Austen'' 1 (noon - 1 * day)\<rparr>]"
    unfolding o
    by (simp add: notification_email_def issue_book_rel_def issue_student_rel_def
        student_user_rel_def desk_def library_def loan_def days_def day_def)
  have e2: "map (\<lambda>i. notification_email desk i 0 noon) (filter (notice_wanted noon) due_soon) =
           [Inr \<lparr>email_list = [''b@example.org''], subject = ''Book Return Reminder: Emma'',
                 body = Reminder ''B'' ''Emma'' 3 (noon + 3 * day)\<rparr>]"
    unfolding due_soon
    by (simp add: notification_email_def issue_book_rel_def issue_student_rel_def
        student_user_rel_def notice_wanted_def desk_def library_def loan_def days_def day_def)
  have "map Inr ms1 =
      [Inr \<lparr>email_list = [''a@example.org''], subject = ''Book Return Reminder: Emma'',
            body = Overdue_notice ''A'' ''Emma'' ''Austen'' 1 (noon - 1 * day)\<rparr>
         :: exn + EmailSchema]"
    by (rule trans [OF ms1 e1])
  then have m1: "ms1 =
      [\<lparr>email_list = [''a@example.org''], subject = ''Book Return Reminder: Emma'',
        body = Overdue_notice ''A'' ''Emma'' ''Austen'' 1 (noon - 1 * day)\<rparr>]"
    by (simp add: map_eq_Cons_conv)
  have "map Inr ms2 =
      [Inr \<lparr>email_list = [''b@example.org''], subject = ''Book Return Reminder: Emma'',
            body = Reminder ''B'' ''Emma'' 3 (noon + 3 * day)\<rparr> :: exn + EmailSchema]"
    by (rule trans [OF ms2 e2])
  then have m2: "ms2 =
      [\<lparr>email_list = [''b@example.org''], subject = ''Book Return Reminder: Emma'',
        body = Reminder ''B'' ''Emma'' 3 (noon + 3 * day)\<rparr>]"
    by (simp add: map_eq_Cons_conv)
  have a: "attempted (check_overdue_books (refusing ''a@example.org'') desk noon) =
       [\<lparr>email_list = [''a@example.org''], subject = ''Book Return Reminder: Emma'',
         body = Overdue_notice ''A'' ''Emma'' ''Austen'' 1 (noon - 1 * day)\<rparr>,
        \<lparr>email_list = [''b@example.org''], subject = ''Book Return Reminder: Emma'',
         body = Reminder ''B'' ''Emma'' 3 (noon + 3 * day)\<rparr>]"
    by (simp add: att m1 m2)
  have b: "log (check_overdue_books (refusing ''a@example.org'') desk noon) =
       [Error_sending_email SMTPException, Email_sent [''b@example.org'']]"
    by (simp add: lg m1 m2 refusing_def)
  from r f a b rs show ?thesis by (intro conjI) simp_all
qed

subsection \<open>The count of overdue notices\<close>

lemma map_overdue_notices_sent_if:
  assumes "\<And>j. overdue_notices_sent (g j) = overdue_notices_sent j"
  shows "map overdue_notices_sent (map (\<lambda>j. if P j then g j else j) xs)
       = map overdue_notices_sent xs"
  using assms by (induction xs) auto

lemma exec_overdue_notices_sent:
  "\<exists>k. map overdue_notices_sent (issues (exec db op))
       = map overdue_notices_sent (issues db) @ replicate k 0"
proof (cases op)
  case (Issue_book d now)
  show ?thesis
  proof (cases "issue_book db d now")
    case (Pair r db')
    show ?thesis
    proof (cases r)
      case (Inl e)
      with Pair have "db' = db" by (auto dest: issue_book_raises)
      with Pair Issue_book show ?thesis by (auto intro: exI [of _ 0])
    next
      case (Inr iss)
      with Pair have "issue_book db d now = (Inr iss, db')" by simp
      from issue_book_returns [OF this] have
        "issues db' = issues db @ [iss]" "overdue_notices_sent iss = 0"
        by auto
      with Pair Issue_book show ?thesis by (auto intro: exI [of _ 1])
    qed
  qed
next
  case (Return_book iid now)
  show ?thesis
  proof (cases "return_book db iid now")
    case (Pair r db')
    show ?thesis
    proof (cases r)
      case (Inl e)
      with Pair have "db' = db" by (auto dest: return_book_raises)
      with Pair Return_book show ?thesis by (auto intro: exI [of _ 0])
    next
      case (Inr iss)
      with Pair have "return_book db iid now = (Inr iss, db')" by simp
      from return_book_returns [OF this] have
        "issues db' = map (\<lambda>j. if id_issue j = iid
                                then j\<lparr>is_returned := True, return_date := Some now\<rparr>
                                else j) (issues db)"
        by auto
      then have "map overdue_notices_sent (issues db') = map overdue_notices_sent (issues db)"
        by (simp add: map_overdue_notices_sent_if)
      with Pair Return_book show ?thesis by (auto intro: exI [of _ 0])
    qed
  qed
next
  case (Check_overdue_books smtp now)
  from check_overdue_books_noticed [of smtp db now] obtain S where
    "db_after (check_overdue_books smtp db now) = noticed S now db" ..
  then have "map overdue_notices_sent (issues (exec db op)) = map overdue_notices_sent (issues db)"
    by (simp add: Check_overdue_books noticed_def map_overdue_notices_sent_if)
  then show ?thesis by (auto intro: exI [of _ 0])
next
  case (Update_last_notice_sent iid t)
  have "map overdue_notices_sent (issues (exec db op)) = map overdue_notices_sent (issues db)"
    by (simp add: Update_last_notice_sent update_last_notice_sent_def
        map_overdue_notices_sent_if)
  then show ?thesis by (auto intro: exI [of _ 0])
qed

lemma run_overdue_notices_sent:
  "\<exists>k. map overdue_notices_sent (issues (run db ops))
       = map overdue_notices_sent (issues db) @ replicate k 0"
  unfolding run_def
proof (induction ops arbitrary: db)
  case Nil
  show ?case by (auto intro: exI [of _ 0])
next
  case (Cons op ops)
  from Cons [of "exec db op"] obtain k where
    "map overdue_notices_sent (issues (foldl exec (exec db op) ops))
       = map overdue_notices_sent (issues (exec db op)) @ replicate k 0" ..
  moreover from exec_overdue_notices_sent [of db op] obtain j where
    "map overdue_notices_sent (issues (exec db op))
       = map overdue_notices_sent (issues db) @ replicate j 0" ..
  ultimately have "map overdue_notices_sent (issues (foldl exec db (op # ops)))
       = map overdue_notices_sent (issues db) @ replicate (j + k) 0"
    by (simp add: replicate_add)
  then show ?case ..
qed

text \<open>
  Claim C10. No operation writes \<open>overdue_notices_sent\<close>: after any sequence of
  \<^verbatim>\<open>issue_book\<close>, \<^verbatim>\<open>return_book\<close>, sweep and \<^verbatim>\<open>update_last_notice_sent\<close> calls the
  issues that were in the table have the value they had, and the issues added since have
  the value 0. So a table whose issues all have the value 0 keeps that property.
\<close>

theorem overdue_notices_sent_unchanged:
  "(\<exists>k. map overdue_notices_sent (issues (run db ops))
        = map overdue_notices_sent (issues db) @ replicate k 0)
   \<and> (list_all (\<lambda>i. overdue_notices_sent i = 0) (issues db) \<longrightarrow>
        list_all (\<lambda>i. overdue_notices_sent i = 0) (issues (run db ops)))"
proof
  show ex: "\<exists>k. map overdue_notices_sent (issues (run db ops))
        = map overdue_notices_sent (issues db) @ replicate k 0"
    by (rule run_overdue_notices_sent)
  show "list_all (\<lambda>i. overdue_notices_sent i = 0) (issues db) \<longrightarrow>
        list_all (\<lambda>i. overdue_notices_sent i = 0) (issues (run db ops))"
  proof
    assume z: "list_all (\<lambda>i. overdue_notices_sent i = 0) (issues db)"
    from ex obtain k where k: "map overdue_notices_sent (issues (run db ops))
        = map overdue_notices_sent (issues db) @ replicate k 0" ..
    have "set (map overdue_notices_sent (issues (run db ops))) \<subseteq> {0}"
      unfolding k using z by (auto simp: list_all_iff)
    then show "list_all (\<lambda>i. overdue_notices_sent i = 0) (issues (run db ops))"
      by (auto simp: list_all_iff)
  qed
qed

theorem overdue_notices_sent_unchanged_witness:
  "list_all (\<lambda>i. overdue_notices_sent i = 0) (issues library)
   \<and> list_all (\<lambda>i. overdue_notices_sent i = 0)
       (issues (run library
          [Issue_book (IssueCreate 1 10) noon,
           Check_overdue_books accepting (noon + 10 * day),
           Update_last_notice_sent 1 (noon + 11 * day),
           Check_overdue_books accepting (noon + 15 * day),
           Return_book 1 (noon + 16 * day)]))"
proof -
  have z: "list_all (\<lambda>i. overdue_notices_sent i = 0) (issues library)"
    by (simp add: library_def)
  with overdue_notices_sent_unchanged [of library] show ?thesis by blast
qed

subsection \<open>Two calls for the last copy\<close>

lemma issue_book_phases:
  "issue_book db d now =
     (case issue_book_tests db d now of
        Inl e \<Rightarrow> (Inl e, db)
      | Inr due \<Rightarrow> (Inr (fst (issue_book_writes db d now due)),
                    snd (issue_book_writes db d now due)))"
proof (cases "issue_book_tests db d now")
  case (Inl e)
  then show ?thesis
    by (simp add: issue_book_def issue_book_tests_def Let_def
        split: sum.split_asm option.split_asm if_split_asm)
next
  case (Inr due)
  then show ?thesis
    by (simp add: issue_book_def issue_book_tests_def issue_book_writes_def Let_def
        split: sum.split_asm option.split_asm if_split_asm)
qed

text \<open>
  Claim C9. Two calls of \<^verbatim>\<open>issue_book\<close> that compete for the last copy of a book can
  both succeed. On \<open>library\<close>, whose first book has one copy, the calls for the students
  10 and 11 both pass their tests when the second reads the database before the first has
  written. The first then adds its issue and lowers the count to 0; the second adds its
  issue too and lowers the count to \<open>-1\<close>: two unreturned issues of a book with one
  copy. Run one after the other, the second call raises 400.
\<close>

theorem issue_book_race_for_last_copy:
  "issue_book_tests library (IssueCreate 1 10) noon = Inr (noon + 14 * day)
   \<and> issue_book_tests library (IssueCreate 1 11) noon = Inr (noon + 14 * day)
   \<and> map available_copies
       (books (snd (issue_book_writes
                      (snd (issue_book_writes library (IssueCreate 1 10) noon (noon + 14 * day)))
                      (IssueCreate 1 11) noon (noon + 14 * day)))) = [- 1, 2]
   \<and> map (\<lambda>i. (book_id i, student_id i, is_returned i))
       (issues (snd (issue_book_writes
                      (snd (issue_book_writes library (IssueCreate 1 10) noon (noon + 14 * day)))
                      (IssueCreate 1 11) noon (noon + 14 * day)))) =
       [(1, 10, False), (1, 11, False)]
   \<and> fst (issue_book (snd (issue_book library (IssueCreate 1 10) noon)) (IssueCreate 1 11) noon) =
       Inl (HTTPException 400 ''No available copies of this book'')"
proof -
  have a: "issue_book_tests library (IssueCreate 1 10) noon = Inr (noon + 14 * day)"
    by (simp add: issue_book_tests_def library_def IssueCreate_def timedelta_days_def
        datetime_add_def noon_def day_def datetime_max_def)
  have b: "issue_book_tests library (IssueCreate 1 11) noon = Inr (noon + 14 * day)"
    by (simp add: issue_book_tests_def library_def IssueCreate_def timedelta_days_def
        datetime_add_def noon_def day_def datetime_max_def)
  have c: "map available_copies
       (books (snd (issue_book_writes
                      (snd (issue_book_writes library (IssueCreate 1 10) noon (noon + 14 * day)))
                      (IssueCreate 1 11) noon (noon + 14 * day)))) = [- 1, 2]"
    by (simp add: issue_book_writes_def library_def IssueCreate_def Let_def)
  have d: "map (\<lambda>i. (book_id i, student_id i, is_returned i))
       (issues (snd (issue_book_writes
                      (snd (issue_book_writes library (IssueCreate 1 10) noon (noon + 14 * day)))
                      (IssueCreate 1 11) noon (noon + 14 * day)))) =
       [(1, 10, False), (1, 11, False)]"
    by (simp add: issue_book_writes_def library_def IssueCreate_def Let_def)
  have e: "fst (issue_book (snd (issue_book library (IssueCreate 1 10) noon))
                  (IssueCreate 1 11) noon) =
       Inl (HTTPException 400 ''No available copies of this book'')"
  proof -
    have "issue_book library (IssueCreate 1 10) noon =
        (Inr (fst (issue_book_writes library (IssueCreate 1 10) noon (noon + 14 * day))),
         snd (issue_book_writes library (IssueCreate 1 10) noon (noon + 14 * day)))"
      by (simp add: issue_book_phases a)
    moreover have
      "issue_book_tests (snd (issue_book_writes library (IssueCreate 1 10) noon (noon + 14 * day)))
         (IssueCreate 1 11) noon = Inl (HTTPException 400 ''No available copies of this book'')"
      by (simp add: issue_book_tests_def issue_book_writes_def library_def IssueCreate_def
          Let_def)
    ultimately show ?thesis
      by (simp add: issue_book_phases)
  qed
  from a b c d e show ?thesis by (intro conjI)
qed

end
